theory Spec2Isabelle
  imports Main
begin

section \<open>Strings\<close>

text \<open>
  A Go string is a sequence of bytes: \<^typ>\<open>string\<close>, with \<open>length\<close> for \<open>len\<close>.
  The functions of package \<open>strings\<close> that the builder and the validators call are
  written out on bytes.
\<close>

definition in_range :: "char \<Rightarrow> char \<Rightarrow> char \<Rightarrow> bool" where
  "in_range lo hi c = ((of_char lo :: nat) \<le> of_char c \<and> (of_char c :: nat) \<le> of_char hi)"

definition upper_byte :: "char \<Rightarrow> char" where
  "upper_byte c = (if in_range CHR ''a'' CHR ''z'' c then char_of ((of_char c :: nat) - 32) else c)"

definition lower_byte :: "char \<Rightarrow> char" where
  "lower_byte c = (if in_range CHR ''A'' CHR ''Z'' c then char_of ((of_char c :: nat) + 32) else c)"

text \<open>
  \<open>strings.ToUpper\<close> and \<open>strings.ToLower\<close> map a text rune by rune. A byte below 128 is a
  rune by itself wherever it stands, and is mapped as ASCII. What lies between two such
  bytes is a run of bytes from 128 on: Go decodes the run as UTF-8, maps its runes
  through the Unicode tables and encodes the result, and what it gets depends on the run
  alone. The tables are not part of the repository: \<open>upperRun\<close> and \<open>lowerRun\<close> stand for
  \<open>strings.ToUpper\<close> and \<open>strings.ToLower\<close> on a text without a byte below 128, and every
  statement below holds whatever they are.
\<close>

definition ascii_byte :: "char \<Rightarrow> bool" where
  "ascii_byte c = ((of_char c :: nat) < 128)"

record unicode =
  upperRun :: "string \<Rightarrow> string"
  lowerRun :: "string \<Rightarrow> string"

text \<open>\<open>mapRuns f g run s\<close>: the bytes of \<open>s\<close> below 128 mapped by \<open>f\<close>, the runs between them
  by \<open>g\<close>; \<open>run\<close> is the run that is open where \<open>s\<close> starts.\<close>

fun mapRuns :: "(char \<Rightarrow> char) \<Rightarrow> (string \<Rightarrow> string) \<Rightarrow> string \<Rightarrow> string \<Rightarrow> string" where
  "mapRuns f g run [] = (if run = [] then [] else g run)"
| "mapRuns f g run (c # cs) =
     (if ascii_byte c then (if run = [] then [] else g run) @ f c # mapRuns f g [] cs
      else mapRuns f g (run @ [c]) cs)"

definition ToUpper :: "unicode \<Rightarrow> string \<Rightarrow> string" where
  "ToUpper uc s = mapRuns upper_byte (upperRun uc) [] s"

definition ToLower :: "unicode \<Rightarrow> string \<Rightarrow> string" where
  "ToLower uc s = mapRuns lower_byte (lowerRun uc) [] s"

text \<open>
  \<open>strings.TrimSpace\<close> removes the runes with \<open>unicode.IsSpace\<close> from both ends: tab, line
  feed, vertical tab, form feed, carriage return and space (\<open>is_space\<close>), U+0085 and
  U+00A0 (\<open>space2\<close>, their two bytes in UTF-8), and U+1680, U+2000 to U+200A, U+2028,
  U+2029, U+202F, U+205F and U+3000 (\<open>space3\<close>, their three bytes). \<open>trimLeft\<close> removes
  them from the front; \<open>trimRightRev\<close> works on the reversed text and removes them from
  its front, where the bytes of a rune come last byte first.
\<close>

definition is_space :: "char \<Rightarrow> bool" where
  "is_space c = (in_range (CHR 0x09) (CHR 0x0D) c \<or> c = CHR '' '')"

definition space2 :: "char \<Rightarrow> char \<Rightarrow> bool" where
  "space2 a b = (a = CHR 0xC2 \<and> (b = CHR 0x85 \<or> b = CHR 0xA0))"

definition space3 :: "char \<Rightarrow> char \<Rightarrow> char \<Rightarrow> bool" where
  "space3 a b c =
     ((a = CHR 0xE1 \<and> b = CHR 0x9A \<and> c = CHR 0x80)
      \<or> (a = CHR 0xE2 \<and> b = CHR 0x80
          \<and> (in_range (CHR 0x80) (CHR 0x8A) c \<or> c = CHR 0xA8 \<or> c = CHR 0xA9 \<or> c = CHR 0xAF))
      \<or> (a = CHR 0xE2 \<and> b = CHR 0x81 \<and> c = CHR 0x9F)
      \<or> (a = CHR 0xE3 \<and> b = CHR 0x80 \<and> c = CHR 0x80))"

fun trimLeft :: "string \<Rightarrow> string" where
  "trimLeft (a # b # c # cs) =
     (if is_space a then trimLeft (b # c # cs)
      else if space2 a b then trimLeft (c # cs)
      else if space3 a b c then trimLeft cs
      else a # b # c # cs)"
| "trimLeft [a, b] = (if is_space a then trimLeft [b] else if space2 a b then [] else [a, b])"
| "trimLeft [a] = (if is_space a then [] else [a])"
| "trimLeft [] = []"

fun trimRightRev :: "string \<Rightarrow> string" where
  "trimRightRev (c # b # a # cs) =
     (if is_space c then trimRightRev (b # a # cs)
      else if space2 b c then trimRightRev (a # cs)
      else if space3 a b c then trimRightRev cs
      else c # b # a # cs)"
| "trimRightRev [c, b] =
     (if is_space c then trimRightRev [b] else if space2 b c then [] else [c, b])"
| "trimRightRev [c] = (if is_space c then [] else [c])"
| "trimRightRev [] = []"

definition TrimSpace :: "string \<Rightarrow> string" where
  "TrimSpace s = rev (trimRightRev (rev (trimLeft s)))"

fun HasPrefix :: "string \<Rightarrow> string \<Rightarrow> bool" where
  "HasPrefix s [] = True"
| "HasPrefix [] (p # ps) = False"
| "HasPrefix (c # cs) (p # ps) = (c = p \<and> HasPrefix cs ps)"

fun Contains :: "string \<Rightarrow> string \<Rightarrow> bool" where
  "Contains [] sub = (sub = [])"
| "Contains (c # cs) sub = (HasPrefix (c # cs) sub \<or> Contains cs sub)"

text \<open>\<open>strings.Join(elems, sep)\<close>; the name \<open>Join\<close> is the builder's method below.\<close>

fun strings_Join :: "string list \<Rightarrow> string \<Rightarrow> string" where
  "strings_Join [] sep = []"
| "strings_Join [x] sep = x"
| "strings_Join (x # y # ys) sep = x @ sep @ strings_Join (y # ys) sep"

text \<open>\<open>strings.Split(s, sep)\<close> for a separator of one byte.\<close>

fun Split :: "string \<Rightarrow> char \<Rightarrow> string list" where
  "Split [] sep = [[]]"
| "Split (c # cs) sep =
     (if c = sep then [] # Split cs sep
      else (case Split cs sep of [] \<Rightarrow> [[c]] | p # ps \<Rightarrow> (c # p) # ps))"

text \<open>\<open>strings.Count(s, "?")\<close>: the number of placeholder bytes of a text.\<close>

definition Count_q :: "string \<Rightarrow> nat" where
  "Count_q s = count_list s CHR ''?''"

text \<open>\<open>strings.Replace(s, "?", new, 1)\<close>: the first placeholder byte, if any, is replaced.\<close>

fun Replace_first_q :: "string \<Rightarrow> string \<Rightarrow> string" where
  "Replace_first_q [] new = []"
| "Replace_first_q (c # cs) new =
     (if c = CHR ''?'' then new @ cs else c # Replace_first_q cs new)"

text \<open>\<open>fmt.Sprint\<close> of an \<open>int\<close>: decimal digits, with a minus sign below zero.\<close>

fun digits :: "nat \<Rightarrow> string" where
  "digits n = (if n < 10 then [char_of (48 + n)] else digits (n div 10) @ [char_of (48 + n mod 10)])"

declare digits.simps [simp del]

definition Sprint_int :: "int \<Rightarrow> string" where
  "Sprint_int i = (if i < 0 then CHR ''-'' # digits (nat (- i)) else digits (nat i))"


section \<open>Regular expressions\<close>

text \<open>
  The patterns of the validators are values of \<open>rexp\<close>; a pattern of the source is
  anchored by \<open>^\<close> and \<open>$\<close> (which in Go, without the multi-line flag, are the start and
  the end of the text), so \<open>MatchString\<close> decides whether the whole text is in the
  language. Matching is by derivatives. Go matches runes; the classes of these patterns
  have bytes below 128 only, except \<open>.\<close>, which takes every rune but the line feed, so
  that matching byte by byte gives the same answer on every text.
\<close>

datatype rexp = Zero | One | Sym "char \<Rightarrow> bool" | Alt rexp rexp | Seq rexp rexp | Star rexp

fun nullable :: "rexp \<Rightarrow> bool" where
  "nullable Zero = False"
| "nullable One = True"
| "nullable (Sym p) = False"
| "nullable (Alt r s) = (nullable r \<or> nullable s)"
| "nullable (Seq r s) = (nullable r \<and> nullable s)"
| "nullable (Star r) = True"

fun deriv :: "char \<Rightarrow> rexp \<Rightarrow> rexp" where
  "deriv c Zero = Zero"
| "deriv c One = Zero"
| "deriv c (Sym p) = (if p c then One else Zero)"
| "deriv c (Alt r s) = Alt (deriv c r) (deriv c s)"
| "deriv c (Seq r s) =
     (if nullable r then Alt (Seq (deriv c r) s) (deriv c s) else Seq (deriv c r) s)"
| "deriv c (Star r) = Seq (deriv c r) (Star r)"

fun MatchString :: "rexp \<Rightarrow> string \<Rightarrow> bool" where
  "MatchString r [] = nullable r"
| "MatchString r (c # cs) = MatchString (deriv c r) cs"

fun Lit :: "string \<Rightarrow> rexp" where
  "Lit [] = One"
| "Lit (c # cs) = Seq (Sym (\<lambda>x. x = c)) (Lit cs)"

definition Opt :: "rexp \<Rightarrow> rexp" where
  "Opt r = Alt r One"

definition Plus :: "rexp \<Rightarrow> rexp" where
  "Plus r = Seq r (Star r)"

text \<open>
  The language of a regular expression, as a relation between the expression and the
  texts it accepts; \<open>MatchString\<close> decides it (lemma \<open>MatchString_accepts\<close> below).
  \<open>allows r c\<close> holds when some character class of \<open>r\<close> has the byte \<open>c\<close>.
\<close>

inductive accepts :: "rexp \<Rightarrow> string \<Rightarrow> bool" where
  acc_One: "accepts One []"
| acc_Sym: "p c \<Longrightarrow> accepts (Sym p) [c]"
| acc_AltL: "accepts r s \<Longrightarrow> accepts (Alt r r') s"
| acc_AltR: "accepts r' s \<Longrightarrow> accepts (Alt r r') s"
| acc_Seq: "accepts r s \<Longrightarrow> accepts r' t \<Longrightarrow> accepts (Seq r r') (s @ t)"
| acc_StarNil: "accepts (Star r) []"
| acc_StarStep: "accepts r s \<Longrightarrow> accepts (Star r) t \<Longrightarrow> accepts (Star r) (s @ t)"

fun allows :: "rexp \<Rightarrow> char \<Rightarrow> bool" where
  "allows Zero c = False"
| "allows One c = False"
| "allows (Sym p) c = p c"
| "allows (Alt r s) c = (allows r c \<or> allows s c)"
| "allows (Seq r s) c = (allows r c \<or> allows s c)"
| "allows (Star r) c = allows r c"

text \<open>The character classes \<open>[a-zA-Z_]\<close>, \<open>[a-zA-Z0-9_]\<close>, \<open>\s\<close> (which is \<open>[\t\n\f\r ]\<close>)
  and \<open>.\<close> (any byte but a line feed).\<close>

definition cls_ident_start :: "char \<Rightarrow> bool" where
  "cls_ident_start c =
     (in_range CHR ''a'' CHR ''z'' c \<or> in_range CHR ''A'' CHR ''Z'' c \<or> c = CHR ''_'')"

definition cls_ident :: "char \<Rightarrow> bool" where
  "cls_ident c =
     (in_range CHR ''a'' CHR ''z'' c \<or> in_range CHR ''A'' CHR ''Z'' c
      \<or> in_range CHR ''0'' CHR ''9'' c \<or> c = CHR ''_'')"

definition cls_s :: "char \<Rightarrow> bool" where
  "cls_s c = (c = CHR 0x09 \<or> c = CHR 0x0A \<or> c = CHR 0x0C \<or> c = CHR 0x0D \<or> c = CHR '' '')"

definition cls_dot :: "char \<Rightarrow> bool" where
  "cls_dot c = (c \<noteq> CHR 0x0A)"

text \<open>\<open>[a-zA-Z_][a-zA-Z0-9_]*\<close>\<close>

definition re_identifier :: rexp where
  "re_identifier = Seq (Sym cls_ident_start) (Star (Sym cls_ident))"

text \<open>\<open>^[a-zA-Z_][a-zA-Z0-9_]*$\<close>\<close>

definition sqlIdentifierPattern :: rexp where
  "sqlIdentifierPattern = re_identifier"

text \<open>\<open>[a-zA-Z_][a-zA-Z0-9_]*(\.[a-zA-Z_][a-zA-Z0-9_]*)?\s*(ASC|DESC)?\<close>\<close>

definition re_order_term :: rexp where
  "re_order_term =
     Seq re_identifier
      (Seq (Opt (Seq (Lit ''.'') re_identifier))
        (Seq (Star (Sym cls_s)) (Opt (Alt (Lit ''ASC'') (Lit ''DESC'')))))"

text \<open>The order-by pattern: one term, then any number of \<open>\s*,\s*\<close> term.\<close>

definition orderByPattern :: rexp where
  "orderByPattern =
     Seq re_order_term
      (Star (Seq (Star (Sym cls_s)) (Seq (Lit '','') (Seq (Star (Sym cls_s)) re_order_term))))"

text \<open>\<open>^(INNER|LEFT|RIGHT|FULL\s+OUTER)?\s*JOIN\s+[a-zA-Z_][a-zA-Z0-9_]*(\s+AS\s+[a-zA-Z_][a-zA-Z0-9_]*)?\s+ON\s+.+$\<close>\<close>

definition joinPattern :: rexp where
  "joinPattern =
     Seq (Opt (Alt (Lit ''INNER'') (Alt (Lit ''LEFT'') (Alt (Lit ''RIGHT'')
            (Seq (Lit ''FULL'') (Seq (Plus (Sym cls_s)) (Lit ''OUTER'')))))))
      (Seq (Star (Sym cls_s)) (Seq (Lit ''JOIN'') (Seq (Plus (Sym cls_s)) (Seq re_identifier
        (Seq (Opt (Seq (Plus (Sym cls_s)) (Seq (Lit ''AS'') (Seq (Plus (Sym cls_s)) re_identifier))))
          (Seq (Plus (Sym cls_s)) (Seq (Lit ''ON'') (Seq (Plus (Sym cls_s)) (Plus (Sym cls_dot))))))))))"

text \<open>\<open>^[a-zA-Z0-9_]+$\<close>\<close>

definition columnNamePattern :: rexp where
  "columnNamePattern = Plus (Sym cls_ident)"


section \<open>The validators\<close>

datatype error =
    ErrInvalidIdentifier | ErrInvalidOrderBy | ErrInvalidJoinClause | ErrInvalidColumnName
  | ErrIdentifierTooLong | ErrSuspiciousPattern
  | ErrUnsupported | ErrNilPointer | ErrTablerNotImplemented | ErrNotFound
  | ErrDriver string | Panic

definition maxIdentifierLen :: nat where "maxIdentifierLen = 64"
definition maxOrderByLen :: nat where "maxOrderByLen = 256"
definition maxJoinClauseLen :: nat where "maxJoinClauseLen = 512"
definition maxWhereClauseLen :: nat where "maxWhereClauseLen = 1024"

definition commonSuspiciousPatterns :: "string list" where
  "commonSuspiciousPatterns =
     [''--'', ''/*'', ''*/'', '';'', ''UNION'', ''DELETE'', ''DROP'', ''INSERT'', ''UPDATE'',
      ''EXEC'', ''EXECUTE'', ''DECLARE'', ''SELECT'', ''CREATE'', ''ALTER'', ''TRUNCATE'']"

definition databaseMetadataPatterns :: "string list" where
  "databaseMetadataPatterns = [''INFORMATION_SCHEMA'', ''SYS.'', ''MYSQL.'', ''PG_'']"

text \<open>An \<open>error\<close> result of Go is an \<open>error option\<close>: \<open>None\<close> is \<open>nil\<close>.\<close>

text \<open>The loop of \<open>validateSuspiciousPatterns\<close> over the patterns, on the upper-cased input.\<close>

fun scanPatterns :: "string \<Rightarrow> string list \<Rightarrow> error option" where
  "scanPatterns upperInput [] = None"
| "scanPatterns upperInput (pattern # patterns) =
     (if Contains upperInput pattern then Some ErrSuspiciousPattern
      else scanPatterns upperInput patterns)"

definition validateSuspiciousPatterns :: "unicode \<Rightarrow> string \<Rightarrow> string list \<Rightarrow> error option" where
  "validateSuspiciousPatterns uc input patterns =
     (let upperInput = ToUpper uc input in scanPatterns upperInput patterns)"

definition validateLength :: "string \<Rightarrow> nat \<Rightarrow> error \<Rightarrow> error option" where
  "validateLength input maxLen errType = (if length input > maxLen then Some errType else None)"

definition validateOrderByFormat :: "string \<Rightarrow> error option" where
  "validateOrderByFormat orderBy =
     (if \<not> MatchString orderByPattern (TrimSpace orderBy) then Some ErrInvalidOrderBy else None)"

definition ValidateOrderBy :: "unicode \<Rightarrow> string \<Rightarrow> error option" where
  "ValidateOrderBy uc orderBy =
     (if length orderBy = 0 then None
      else case validateLength orderBy maxOrderByLen ErrInvalidOrderBy of
        Some err \<Rightarrow> Some err
      | None \<Rightarrow>
         (case validateSuspiciousPatterns uc orderBy commonSuspiciousPatterns of
            Some err \<Rightarrow> Some err
          | None \<Rightarrow> validateOrderByFormat orderBy))"

definition validateJoinFormat :: "string \<Rightarrow> error option" where
  "validateJoinFormat joinClause =
     (if \<not> MatchString joinPattern (TrimSpace joinClause) then Some ErrInvalidJoinClause else None)"

definition ValidateJoinClause :: "unicode \<Rightarrow> string \<Rightarrow> error option" where
  "ValidateJoinClause uc joinClause =
     (if length joinClause = 0 then None
      else case validateLength joinClause maxJoinClauseLen ErrInvalidJoinClause of
        Some err \<Rightarrow> Some err
      | None \<Rightarrow>
         (case validateSuspiciousPatterns uc joinClause commonSuspiciousPatterns of
            Some err \<Rightarrow> Some err
          | None \<Rightarrow> validateJoinFormat joinClause))"

definition ValidateColumnName :: "string \<Rightarrow> error option" where
  "ValidateColumnName columnName =
     (if length columnName = 0 then Some ErrInvalidColumnName
      else if length columnName > maxIdentifierLen then Some ErrIdentifierTooLong
      else if \<not> MatchString columnNamePattern columnName then Some ErrInvalidColumnName
      else None)"

definition ValidateIdentifier :: "string \<Rightarrow> error option" where
  "ValidateIdentifier identifier =
     (if length identifier = 0 then Some ErrInvalidIdentifier
      else if length identifier > maxIdentifierLen then Some ErrIdentifierTooLong
      else if \<not> MatchString sqlIdentifierPattern identifier then Some ErrInvalidIdentifier
      else None)"

text \<open>A result \<open>(value, error)\<close> of Go is a sum: \<open>Inl\<close> the error, \<open>Inr\<close> the value.\<close>

fun SanitizeColumnNames :: "string list \<Rightarrow> error + string list" where
  "SanitizeColumnNames [] = Inr []"
| "SanitizeColumnNames (col # columns) =
     (case ValidateColumnName (TrimSpace col) of
        Some err \<Rightarrow> Inl err
      | None \<Rightarrow>
         (case SanitizeColumnNames columns of
            Inl err \<Rightarrow> Inl err
          | Inr sanitized \<Rightarrow> Inr (TrimSpace col # sanitized)))"

definition ValidateWhereClause :: "unicode \<Rightarrow> string \<Rightarrow> error option" where
  "ValidateWhereClause uc whereClause =
     (case validateLength whereClause maxWhereClauseLen ErrSuspiciousPattern of
        Some err \<Rightarrow> Some err
      | None \<Rightarrow>
         validateSuspiciousPatterns uc whereClause
           (commonSuspiciousPatterns @ databaseMetadataPatterns))"

fun validateParts :: "string list \<Rightarrow> error option" where
  "validateParts [] = None"
| "validateParts (part # parts) =
     (case ValidateIdentifier part of Some err \<Rightarrow> Some err | None \<Rightarrow> validateParts parts)"

definition validateTableColumnFormat :: "string \<Rightarrow> error + string" where
  "validateTableColumnFormat field =
     (let parts = Split field CHR ''.''
      in if length parts > 2 then Inl ErrInvalidColumnName
         else case validateParts parts of Some err \<Rightarrow> Inl err | None \<Rightarrow> Inr field)"

definition sanitizeSelectField :: "string \<Rightarrow> error + string" where
  "sanitizeSelectField field =
     (let trimmed = TrimSpace field
      in if trimmed = ''*'' then Inr trimmed else validateTableColumnFormat trimmed)"

fun sanitizeEach :: "string list \<Rightarrow> error + string list" where
  "sanitizeEach [] = Inr []"
| "sanitizeEach (field # rest) =
     (case sanitizeSelectField field of
        Inl err \<Rightarrow> Inl err
      | Inr sanitizedField \<Rightarrow>
         (case sanitizeEach rest of
            Inl err \<Rightarrow> Inl err
          | Inr sanitized \<Rightarrow> Inr (sanitizedField # sanitized)))"

definition SanitizeSelectFields :: "string list \<Rightarrow> error + string list" where
  "SanitizeSelectFields sel = (if length sel = 0 then Inr sel else sanitizeEach sel)"

text \<open>The check for an aggregate function in \<open>ValidateHavingClause\<close> has an empty body in
  the source: only \<open>ValidateWhereClause\<close> decides.\<close>

fun ValidateHavingClause :: "unicode \<Rightarrow> string list \<Rightarrow> error option" where
  "ValidateHavingClause uc [] = None"
| "ValidateHavingClause uc (clause # having) =
     (case ValidateWhereClause uc clause of
        Some err \<Rightarrow> Some err
      | None \<Rightarrow> ValidateHavingClause uc having)"


section \<open>The query builder\<close>

text \<open>
  \<open>SqlQueryAdapter\<close> is the struct of the source without its handles on the
  collaborators (\<open>db\<close>, \<open>ctx\<close>) and without \<open>scopes\<close>, which no method reads. A slice
  is a list, a \<open>*int\<close> is an \<open>int option\<close>; the field \<open>fields\<close> is \<open>fields'\<close> here. A bound model is a pointer to a record that
  names its table, as in \<open>UseModel(&User{})\<close>: \<open>Tabler a t\<close> is the pointer \<open>a\<close> to a
  record whose \<open>TableName()\<close> is \<open>t\<close>, so that \<open>==\<close> on two models compares the pointers.
  The driver flavour is what \<open>detectFlavor\<close> found for the connection.
\<close>

datatype driverFlavor = FlavorMySQL | FlavorPostgres

datatype tabler = Tabler (addr: nat) (TableName: string)

text \<open>A dynamic value (\<open>any\<close>): \<open>ASlice\<close> is a value whose reflected kind is \<open>Slice\<close> or
  \<open>Array\<close>, the others are scalars.\<close>

datatype any = ANil | AStr string | AInt int | ABool bool | ASlice "any list"

record SqlQueryAdapter =
  flavor :: driverFlavor
  table :: string
  fields' :: "string list"
  groups :: "string list"
  havings :: "string list"
  havingArgs :: "any list"
  joins :: "string list"
  joinArgs :: "any list"
  wheres :: "string list"
  whereArgs :: "any list"
  orWheres :: "string list"
  orArgs :: "any list"
  orderBy :: string
  limit :: "int option"
  offset :: "int option"
  model :: "tabler option"

definition NewSqlAdapter :: "driverFlavor \<Rightarrow> SqlQueryAdapter" where
  "NewSqlAdapter fl =
     \<lparr>flavor = fl, table = [], fields' = [''*''], groups = [], havings = [], havingArgs = [],
      joins = [], joinArgs = [], wheres = [], whereArgs = [], orWheres = [], orArgs = [],
      orderBy = [], limit = None, offset = None, model = None\<rparr>"

text \<open>
  \<open>clone\<close> copies the struct and the slices \<open>fields\<close>, \<open>joins\<close>, \<open>joinArgs\<close>, \<open>wheres\<close>,
  \<open>whereArgs\<close>, \<open>orWheres\<close>, \<open>orArgs\<close>: on values it is the identity. The slices
  \<open>groups\<close>, \<open>havings\<close> and \<open>havingArgs\<close> are not copied, and the only method that writes
  into one of them is \<open>Having\<close>, which appends to \<open>havingArgs\<close>. The builder a call returns
  has the value given here; an append to a \<open>havingArgs\<close> that is not empty may in addition
  change the \<open>havingArgs\<close> of another builder made from the same receiver, which a value
  does not show. No statement below is about two builders after such an append.
\<close>

definition clone :: "SqlQueryAdapter \<Rightarrow> SqlQueryAdapter" where
  "clone q = q"

definition UseModel :: "SqlQueryAdapter \<Rightarrow> tabler \<Rightarrow> SqlQueryAdapter" where
  "UseModel q m = (clone q)\<lparr>model := Some m, table := TableName m\<rparr>"

text \<open>The condition of \<open>Where\<close> is another builder or a text (\<open>toString\<close> is the identity
  on a string).\<close>

datatype cond = CondStr string | CondSub SqlQueryAdapter

text \<open>The loop of \<open>Where\<close> over the leading fragments of the receiver (\<open>qWheres\<close>) and of the
  sub-builder (\<open>subWheres\<close>): it stops at the first difference.\<close>

fun countCommon :: "string list \<Rightarrow> string list \<Rightarrow> nat \<Rightarrow> nat \<Rightarrow> nat \<times> nat" where
  "countCommon (qw # qWheres) (sw # subWheres) common argsToDrop =
     (if sw = qw then countCommon qWheres subWheres (common + 1) (argsToDrop + Count_q qw)
      else (common, argsToDrop))"
| "countCommon [] subWheres common argsToDrop = (common, argsToDrop)"
| "countCommon qWheres [] common argsToDrop = (common, argsToDrop)"

text \<open>The loop of \<open>Where\<close> over its arguments.\<close>

fun expandArgs :: "any list \<Rightarrow> string \<Rightarrow> any list \<Rightarrow> string \<times> any list" where
  "expandArgs [] condStr finalArgs = (condStr, finalArgs)"
| "expandArgs (ASlice vals # args) condStr finalArgs =
     (if length vals = 0 then expandArgs args ''1=0'' finalArgs
      else expandArgs args
             (Replace_first_q condStr
                (''('' @ strings_Join (replicate (length vals) ''?'') '', '' @ '')''))
             (finalArgs @ vals))"
| "expandArgs (arg # args) condStr finalArgs = expandArgs args condStr (finalArgs @ [arg])"

definition stripCommon :: "SqlQueryAdapter \<Rightarrow> SqlQueryAdapter \<Rightarrow> string list \<times> any list" where
  "stripCommon q sub =
     (if model sub = model q \<and> length (wheres q) > 0 \<and> length (wheres sub) \<ge> length (wheres q)
      then
        (case countCommon (wheres q) (wheres sub) 0 0 of
           (common, argsToDrop) \<Rightarrow>
             if common > 0
             then (drop common (wheres sub),
                   if argsToDrop \<le> length (whereArgs sub) then drop argsToDrop (whereArgs sub)
                   else [])
             else (wheres sub, whereArgs sub))
      else (wheres sub, whereArgs sub))"

definition groupText :: "string list \<Rightarrow> string list \<Rightarrow> string" where
  "groupText subWheres subOrWheres =
     ''(''
     @ (if length subWheres > 0 then strings_Join subWheres '' AND '' else [])
     @ (if length subOrWheres > 0
        then (if length subWheres > 0 then '' OR '' else [])
             @ ''('' @ strings_Join subOrWheres '' OR '' @ '')''
        else [])
     @ '')''"

definition Where :: "SqlQueryAdapter \<Rightarrow> cond \<Rightarrow> any list \<Rightarrow> SqlQueryAdapter" where
  "Where q cond args =
     (let cp = clone q in
      case cond of
        CondSub sub \<Rightarrow>
          (case stripCommon q sub of
             (subWheres, subWhereArgs) \<Rightarrow>
               cp\<lparr>wheres := wheres cp @ [groupText subWheres (orWheres sub)],
                  whereArgs := whereArgs cp @ subWhereArgs @ orArgs sub\<rparr>)
      | CondStr condStr \<Rightarrow>
          (case expandArgs args condStr [] of
             (condStr', finalArgs) \<Rightarrow>
               cp\<lparr>wheres := wheres cp @ [condStr'],
                  whereArgs := whereArgs cp @ finalArgs\<rparr>))"

definition Or :: "SqlQueryAdapter \<Rightarrow> string \<Rightarrow> any list \<Rightarrow> SqlQueryAdapter" where
  "Or q cond args =
     (let cp = clone q in cp\<lparr>orWheres := orWheres cp @ [cond], orArgs := orArgs cp @ args\<rparr>)"

definition Join :: "unicode \<Rightarrow> SqlQueryAdapter \<Rightarrow> string \<Rightarrow> any list \<Rightarrow> SqlQueryAdapter" where
  "Join uc q joinClause args =
     (case ValidateJoinClause uc joinClause of
        Some err \<Rightarrow> q
      | None \<Rightarrow>
          (let cp = clone q
           in cp\<lparr>joins := joins cp @ [joinClause], joinArgs := joinArgs cp @ args\<rparr>))"

definition Select :: "SqlQueryAdapter \<Rightarrow> string list \<Rightarrow> SqlQueryAdapter" where
  "Select q sel =
     (case SanitizeSelectFields sel of
        Inl err \<Rightarrow> q
      | Inr sanitized \<Rightarrow>
          (let cp = clone q in if length sanitized > 0 then cp\<lparr>fields' := sanitized\<rparr> else cp))"

definition GroupBy :: "SqlQueryAdapter \<Rightarrow> string list \<Rightarrow> SqlQueryAdapter" where
  "GroupBy q cols =
     (case SanitizeColumnNames cols of
        Inl err \<Rightarrow> q
      | Inr sanitized \<Rightarrow>
          (let cp = clone q in if length sanitized > 0 then cp\<lparr>groups := sanitized\<rparr> else cp))"

definition Having :: "unicode \<Rightarrow> SqlQueryAdapter \<Rightarrow> string list \<Rightarrow> any list \<Rightarrow> SqlQueryAdapter" where
  "Having uc q cols args =
     (case ValidateHavingClause uc cols of
        Some err \<Rightarrow> q
      | None \<Rightarrow>
          (let cp = clone q
           in if length cols > 0
              then cp\<lparr>havings := cols, havingArgs := havingArgs cp @ args\<rparr>
              else cp))"

definition Limit :: "SqlQueryAdapter \<Rightarrow> int \<Rightarrow> SqlQueryAdapter" where
  "Limit q l = (clone q)\<lparr>limit := Some l\<rparr>"

definition Offset :: "SqlQueryAdapter \<Rightarrow> int \<Rightarrow> SqlQueryAdapter" where
  "Offset q o' = (clone q)\<lparr>offset := Some o'\<rparr>"

definition Order :: "unicode \<Rightarrow> SqlQueryAdapter \<Rightarrow> string \<Rightarrow> SqlQueryAdapter" where
  "Order uc q order =
     (case ValidateOrderBy uc order of
        Some err \<Rightarrow> q
      | None \<Rightarrow> (clone q)\<lparr>orderBy := order\<rparr>)"

definition UnsafeOrder :: "SqlQueryAdapter \<Rightarrow> string \<Rightarrow> SqlQueryAdapter" where
  "UnsafeOrder q order = (clone q)\<lparr>orderBy := order\<rparr>"

text \<open>\<open>Clone\<close> is \<open>q.UseModel(q.model)\<close>; without a bound model the call of \<open>TableName\<close>
  on the nil interface panics.\<close>

definition Clone :: "SqlQueryAdapter \<Rightarrow> error + SqlQueryAdapter" where
  "Clone q = (case model q of None \<Rightarrow> Inl Panic | Some m \<Rightarrow> Inr (UseModel q m))"


subsection \<open>Statement assembly\<close>

text \<open>The final pass of \<open>build\<close> for the numbered dialect; \<open>idx\<close> is the number of
  markers written so far.\<close>

fun numberMarkers :: "string \<Rightarrow> int \<Rightarrow> string" where
  "numberMarkers [] idx = []"
| "numberMarkers (c # cs) idx =
     (if c = CHR ''?'' then ''$'' @ Sprint_int (idx + 1) @ numberMarkers cs (idx + 1)
      else c # numberMarkers cs idx)"

text \<open>The text and the arguments that \<open>build\<close> writes for the joins, for the \<open>WHERE\<close> block
  and for the clauses after it.\<close>

definition selectText :: "bool \<Rightarrow> SqlQueryAdapter \<Rightarrow> string" where
  "selectText count q =
     (if count then ''SELECT COUNT(1) FROM ''
      else ''SELECT '' @ strings_Join (fields' q) '', '' @ '' FROM '')
     @ table q
     @ (if length (joins q) > 0 then '' '' @ strings_Join (joins q) '' '' else [])"

definition whereText :: "SqlQueryAdapter \<Rightarrow> string" where
  "whereText q =
     (if length (wheres q) > 0 \<or> length (orWheres q) > 0
      then '' WHERE ''
           @ (if length (wheres q) > 0 then strings_Join (wheres q) '' AND '' else [])
           @ (if length (orWheres q) > 0
              then (if length (wheres q) > 0 then '' OR '' else [])
                   @ ''('' @ strings_Join (orWheres q) '' OR '' @ '')''
              else [])
      else [])"

definition whereArgsOut :: "SqlQueryAdapter \<Rightarrow> any list" where
  "whereArgsOut q =
     (if length (wheres q) > 0 \<or> length (orWheres q) > 0
      then (if length (wheres q) > 0 then whereArgs q else [])
           @ (if length (orWheres q) > 0 then orArgs q else [])
      else [])"

definition tailText :: "bool \<Rightarrow> SqlQueryAdapter \<Rightarrow> string" where
  "tailText count q =
     (if length (groups q) > 0 \<and> \<not> count
      then '' GROUP BY '' @ strings_Join (groups q) '', '' else [])
     @ (if length (havings q) > 0 \<and> \<not> count
        then '' HAVING '' @ strings_Join (havings q) '', '' else [])
     @ (if orderBy q \<noteq> [] \<and> \<not> count then '' ORDER BY '' @ orderBy q else [])
     @ (case limit q of
          Some l \<Rightarrow> if \<not> count then '' LIMIT '' @ Sprint_int l else []
        | None \<Rightarrow> [])
     @ (case offset q of
          Some off \<Rightarrow> if \<not> count then '' OFFSET '' @ Sprint_int off else []
        | None \<Rightarrow> [])"

definition build :: "bool \<Rightarrow> SqlQueryAdapter \<Rightarrow> string \<times> any list" where
  "build count q =
     (let sqlStr = selectText count q @ whereText q @ tailText count q;
          args = joinArgs q @ whereArgsOut q
                 @ (if length (havings q) > 0 \<and> \<not> count then havingArgs q else [])
      in (if flavor q = FlavorPostgres then numberMarkers sqlStr 0 else sqlStr, args))"


section \<open>Running a query: \<open>Scan\<close> and \<open>First\<close>\<close>

text \<open>
  The collaborators are parameters. \<open>QueryContext\<close> is the execution engine: it answers a
  statement and its arguments with an error or a cursor. A cursor has its column names,
  the rows it has not yet delivered (each one scans into the holders or fails with an
  error) and the error that \<open>rows.Err()\<close> reports once \<open>rows.Next()\<close> has returned false.
  \<open>decodeRow\<close> is the loop over the columns of one row (\<open>buildFieldMap\<close>, \<open>normalize\<close>,
  \<open>convertAssign\<close>): it writes into the fields of a record, stops at the first field that
  does not convert and keeps what it has written before; \<open>zeroValue\<close> is
  \<open>reflect.New(elemTyp).Elem()\<close>.
\<close>

type_synonym cell = "string option"

record rows =
  columns :: "string list"
  pending :: "(error + cell list) list"
  rowsErr :: "error option"

record 'r env =
  QueryContext :: "string \<Rightarrow> any list \<Rightarrow> error + rows"
  decodeRow :: "string list \<Rightarrow> cell list \<Rightarrow> 'r \<Rightarrow> 'r \<times> error option"
  zeroValue :: 'r

text \<open>
  A destination (\<open>dest any\<close>): what \<open>reflect.ValueOf(dest)\<close> finds, and the model that
  \<open>dest.(Tabler)\<close> yields when the destination names its table. \<open>NotPointer\<close> is a value
  that is no pointer, or a nil pointer; \<open>SliceOfNonStructPtr\<close> points to a slice whose
  elements are no structs (\<open>*[]map[string]any\<close> is one), for which \<open>buildFieldMap\<close>
  panics in \<open>NumField\<close>; \<open>OtherPtr\<close> points to anything else.
\<close>

datatype 'r target =
  NotPointer | StructPtr 'r | SlicePtr "'r list" | SliceOfNonStructPtr | OtherPtr

record 'r dest =
  tablerOf :: "tabler option"
  target :: "'r target"

text \<open>
  What a call leaves behind: the adapter the receiver points to, the destination, the
  error returned and the statement that was passed to \<open>QueryContext\<close>, if one was.
\<close>

record 'r outcome =
  receiver :: SqlQueryAdapter
  targetOut :: "'r target"
  err :: "error option"
  issued :: "(string \<times> any list) option"

text \<open>The first lines of \<open>Scan\<close> and of \<open>First\<close>: they assign to the fields of \<open>*q\<close>.\<close>

definition bindModel :: "SqlQueryAdapter \<Rightarrow> tabler option \<Rightarrow> error + SqlQueryAdapter" where
  "bindModel q t =
     (if model q = None
      then (case t of
              Some m \<Rightarrow> Inr (q\<lparr>model := Some m, table := TableName m\<rparr>)
            | None \<Rightarrow> Inl ErrTablerNotImplemented)
      else Inr q)"

text \<open>The loop of \<open>Scan\<close> over the rows for a slice: the destination is set after the loop.\<close>

fun scanAll :: "'r env \<Rightarrow> string list \<Rightarrow> (error + cell list) list \<Rightarrow> 'r list \<Rightarrow> error + 'r list" where
  "scanAll env cols [] slice = Inr slice"
| "scanAll env cols (row # rest) slice =
     (case row of
        Inl e \<Rightarrow> Inl e
      | Inr raw \<Rightarrow>
          (case decodeRow env cols raw (zeroValue env) of
             (elem, Some e) \<Rightarrow> Inl e
           | (elem, None) \<Rightarrow> scanAll env cols rest (slice @ [elem])))"

fun scanInto :: "'r env \<Rightarrow> rows \<Rightarrow> 'r target \<Rightarrow> 'r target \<times> error option" where
  "scanInto env rws NotPointer = (NotPointer, Some ErrNilPointer)"
| "scanInto env rws (SlicePtr slice) =
     (case scanAll env (columns rws) (pending rws) slice of
        Inl e \<Rightarrow> (SlicePtr slice, Some e)
      | Inr slice' \<Rightarrow> (SlicePtr slice', rowsErr rws))"
| "scanInto env rws (StructPtr r) =
     (case pending rws of
        [] \<Rightarrow> (StructPtr r, rowsErr rws)
      | row # rest \<Rightarrow>
          (case row of
             Inl e \<Rightarrow> (StructPtr r, Some e)
           | Inr raw \<Rightarrow>
               (case decodeRow env (columns rws) raw r of
                  (r', Some e) \<Rightarrow> (StructPtr r', Some e)
                | (r', None) \<Rightarrow> (StructPtr r', None))))"
| "scanInto env rws SliceOfNonStructPtr = (SliceOfNonStructPtr, Some Panic)"
| "scanInto env rws OtherPtr = (OtherPtr, Some ErrUnsupported)"

definition Scan :: "'r env \<Rightarrow> SqlQueryAdapter \<Rightarrow> 'r dest \<Rightarrow> 'r outcome" where
  "Scan env q dest =
     (case bindModel q (tablerOf dest) of
        Inl e \<Rightarrow> \<lparr>receiver = q, targetOut = target dest, err = Some e, issued = None\<rparr>
      | Inr q' \<Rightarrow>
          (case build False q' of
             (sqlStr, args) \<Rightarrow>
               (case QueryContext env sqlStr args of
                  Inl e \<Rightarrow>
                    \<lparr>receiver = q', targetOut = target dest, err = Some e,
                     issued = Some (sqlStr, args)\<rparr>
                | Inr rws \<Rightarrow>
                    (case scanInto env rws (target dest) of
                       (t', e) \<Rightarrow>
                         \<lparr>receiver = q', targetOut = t', err = e,
                          issued = Some (sqlStr, args)\<rparr>))))"

text \<open>\<open>First\<close> after its first row has been found: the check of the pointer, the scan of
  the row, the switch on the kind of the destination.\<close>

fun firstInto :: "'r env \<Rightarrow> string list \<Rightarrow> error + cell list \<Rightarrow> 'r target \<Rightarrow> 'r target \<times> error option" where
  "firstInto env cols row NotPointer = (NotPointer, Some ErrNilPointer)"
| "firstInto env cols (Inl e) t = (t, Some e)"
| "firstInto env cols (Inr raw) (StructPtr r) =
     (case decodeRow env cols raw r of (r', e) \<Rightarrow> (StructPtr r', e))"
| "firstInto env cols (Inr raw) (SlicePtr slice) =
     (case decodeRow env cols raw (zeroValue env) of
        (elem, Some e) \<Rightarrow> (SlicePtr slice, Some e)
      | (elem, None) \<Rightarrow> (SlicePtr [elem], None))"
| "firstInto env cols (Inr raw) SliceOfNonStructPtr = (SliceOfNonStructPtr, Some Panic)"
| "firstInto env cols (Inr raw) OtherPtr = (OtherPtr, Some ErrUnsupported)"

definition First :: "unicode \<Rightarrow> 'r env \<Rightarrow> SqlQueryAdapter \<Rightarrow> 'r dest \<Rightarrow> 'r outcome" where
  "First uc env q dest =
     (case bindModel q (tablerOf dest) of
        Inl e \<Rightarrow> \<lparr>receiver = q, targetOut = target dest, err = Some e, issued = None\<rparr>
      | Inr q' \<Rightarrow>
          (case build False q' of
             (sqlStr0, args) \<Rightarrow>
               (let sqlStr = (if \<not> Contains (ToLower uc sqlStr0) ''limit''
                              then sqlStr0 @ '' LIMIT 1'' else sqlStr0)
                in case QueryContext env sqlStr args of
                     Inl e \<Rightarrow>
                       \<lparr>receiver = q', targetOut = target dest, err = Some e,
                        issued = Some (sqlStr, args)\<rparr>
                   | Inr rws \<Rightarrow>
                       (case pending rws of
                          [] \<Rightarrow>
                            \<lparr>receiver = q', targetOut = target dest,
                             err = (case rowsErr rws of Some e \<Rightarrow> Some e | None \<Rightarrow> Some ErrNotFound),
                             issued = Some (sqlStr, args)\<rparr>
                        | row # rest \<Rightarrow>
                            (case firstInto env (columns rws) row (target dest) of
                               (t', e) \<Rightarrow>
                                 \<lparr>receiver = q', targetOut = t', err = e,
                                  issued = Some (sqlStr, args)\<rparr>)))))"

text \<open>
  The receiver of \<open>Scan\<close> and \<open>First\<close> is a pointer. A store maps the address of an
  adapter to its value; every holder of the pointer reads the adapter at that address.
  A call on a nil receiver panics where it reads \<open>q.model\<close>.
\<close>

type_synonym store = "nat \<Rightarrow> SqlQueryAdapter option"

definition ScanAt :: "'r env \<Rightarrow> store \<Rightarrow> nat \<Rightarrow> 'r dest \<Rightarrow> store \<times> 'r target \<times> error option \<times> (string \<times> any list) option" where
  "ScanAt env st p dest =
     (case st p of
        None \<Rightarrow> (st, target dest, Some Panic, None)
      | Some q \<Rightarrow>
          (let out = Scan env q dest
           in (st(p := Some (receiver out)), targetOut out, err out, issued out)))"

definition FirstAt :: "unicode \<Rightarrow> 'r env \<Rightarrow> store \<Rightarrow> nat \<Rightarrow> 'r dest \<Rightarrow> store \<times> 'r target \<times> error option \<times> (string \<times> any list) option" where
  "FirstAt uc env st p dest =
     (case st p of
        None \<Rightarrow> (st, target dest, Some Panic, None)
      | Some q \<Rightarrow>
          (let out = First uc env q dest
           in (st(p := Some (receiver out)), targetOut out, err out, issued out)))"


section \<open>Calls with one argument for each marker\<close>

text \<open>
  \<open>markersOf\<close> counts the \<open>?\<close> of a list of fragments. \<open>matched\<close> holds for the builders
  that are made from a fresh adapter by calls that pass one argument for each \<open>?\<close> of
  their text: \<open>Where\<close> with a text and no empty sequence among as many arguments as the
  text has \<open>?\<close> (a sequence is one argument), \<open>Where\<close> with a text and empty sequences
  only, \<open>Where\<close> with a sub-builder that is made in this way, \<open>Or\<close> and \<open>Join\<close> with as
  many arguments as \<open>?\<close>, \<open>Having\<close> with as many arguments as \<open>?\<close> on a builder that
  has no having arguments yet, and any call of \<open>Limit\<close>, \<open>Offset\<close>, \<open>Order\<close>, \<open>Select\<close>
  and \<open>GroupBy\<close>, whose validators accept no text with a \<open>?\<close>. \<open>balanced\<close> is the
  invariant of these builders.
\<close>

definition markersOf :: "string list \<Rightarrow> nat" where
  "markersOf frags = sum_list (map Count_q frags)"

inductive matched :: "SqlQueryAdapter \<Rightarrow> bool" where
  fresh: "matched (NewSqlAdapter fl)"
| useModel: "matched q \<Longrightarrow> Count_q (TableName m) = 0 \<Longrightarrow> matched (UseModel q m)"
| whereText:
    "matched q \<Longrightarrow> ASlice [] \<notin> set args \<Longrightarrow> Count_q condStr = length args
     \<Longrightarrow> matched (Where q (CondStr condStr) args)"
| whereEmpty:
    "matched q \<Longrightarrow> args \<noteq> [] \<Longrightarrow> set args \<subseteq> {ASlice []}
     \<Longrightarrow> matched (Where q (CondStr condStr) args)"
| whereSub: "matched q \<Longrightarrow> matched sub \<Longrightarrow> matched (Where q (CondSub sub) args)"
| or: "matched q \<Longrightarrow> Count_q cond = length args \<Longrightarrow> matched (Or q cond args)"
| join:
    "matched q \<Longrightarrow> Count_q joinClause = length args \<Longrightarrow> matched (Join uc q joinClause args)"
| having:
    "matched q \<Longrightarrow> havingArgs q = [] \<Longrightarrow> markersOf cols = length args
     \<Longrightarrow> matched (Having uc q cols args)"
| limit: "matched q \<Longrightarrow> matched (Limit q l)"
| offset: "matched q \<Longrightarrow> matched (Offset q off)"
| order: "matched q \<Longrightarrow> matched (Order uc q ord)"
| select: "matched q \<Longrightarrow> matched (Select q sel)"
| groupBy: "matched q \<Longrightarrow> matched (GroupBy q cols)"

definition balanced :: "SqlQueryAdapter \<Rightarrow> bool" where
  "balanced q \<longleftrightarrow>
     Count_q (table q) = 0 \<and> markersOf (fields' q) = 0 \<and> markersOf (groups q) = 0
     \<and> Count_q (orderBy q) = 0
     \<and> markersOf (joins q) = length (joinArgs q)
     \<and> markersOf (wheres q) = length (whereArgs q)
     \<and> markersOf (orWheres q) = length (orArgs q)
     \<and> markersOf (havings q) = length (havingArgs q)"


section \<open>Example builders\<close>

text \<open>
  Tables for the examples: on a run, U+0130 (the bytes C4 B0) becomes \<open>i\<close> in lower case
  and U+017F (the bytes C5 BF) becomes \<open>S\<close> in upper case, as in Go; every other byte of
  the run stays, as Go leaves a rune that has no other case.
\<close>

fun lowerDotted :: "string \<Rightarrow> string" where
  "lowerDotted (a # b # cs) =
     (if a = CHR 0xC4 \<and> b = CHR 0xB0 then CHR ''i'' # lowerDotted cs
      else a # lowerDotted (b # cs))"
| "lowerDotted cs = cs"

fun upperLongS :: "string \<Rightarrow> string" where
  "upperLongS (a # b # cs) =
     (if a = CHR 0xC5 \<and> b = CHR 0xBF then CHR ''S'' # upperLongS cs
      else a # upperLongS (b # cs))"
| "upperLongS cs = cs"

definition exampleTables :: unicode where
  "exampleTables = \<lparr>upperRun = upperLongS, lowerRun = lowerDotted\<rparr>"

text \<open>The builder of the scenario: table \<open>users\<close>, one AND fragment, two OR fragments, an
  order and a limit. The order is set by \<open>UnsafeOrder\<close>.\<close>

definition users :: tabler where
  "users = Tabler 1 ''users''"

definition scenario :: "driverFlavor \<Rightarrow> SqlQueryAdapter" where
  "scenario fl =
     Limit (UnsafeOrder (Or (Or (Where (UseModel (NewSqlAdapter fl) users)
       (CondStr ''status = ?'') [AStr ''active'']) ''role = ?'' [AStr ''admin''])
       ''role = ?'' [AStr ''owner'']) ''created_at DESC'') 10"

text \<open>A parent with one filter, and a sub-builder derived from it that adds one AND
  fragment and two OR fragments.\<close>

definition parent :: SqlQueryAdapter where
  "parent = Where (UseModel (NewSqlAdapter FlavorMySQL) users) (CondStr ''tenant = ?'') [AInt 7]"

definition child :: SqlQueryAdapter where
  "child =
     Or (Or (Where parent (CondStr ''age > ?'') [AInt 18]) ''name LIKE ?'' [AStr ''%a%''])
        ''email LIKE ?'' [AStr ''%a%'']"


text \<open>A builder ordered by a column whose name contains \<open>limit\<close>, and one ordered
  (without validation) by a column whose name has \<open>L\<close>, U+0130, \<open>M\<close>, U+0130, \<open>T\<close>.\<close>

definition byLimitCount :: SqlQueryAdapter where
  "byLimitCount = Order exampleTables (UseModel (NewSqlAdapter FlavorMySQL) users) ''limit_count''"

definition dottedName :: string where
  "dottedName = ''L'' @ [CHR 0xC4, CHR 0xB0] @ ''M'' @ [CHR 0xC4, CHR 0xB0] @ ''T_x''"

definition byDottedName :: SqlQueryAdapter where
  "byDottedName = UnsafeOrder (UseModel (NewSqlAdapter FlavorMySQL) users) dottedName"

text \<open>An engine that answers every statement with a cursor of no rows; the records are
  pairs of an id and a name, and the destination is a pointer to one that names the
  table \<open>users\<close>.\<close>

definition emptyCursor :: rows where
  "emptyCursor = \<lparr>columns = [''id'', ''name''], pending = [], rowsErr = None\<rparr>"

definition emptyEnv :: "(int \<times> string) env" where
  "emptyEnv =
     \<lparr>QueryContext = (\<lambda>sqlStr args. Inr emptyCursor),
      decodeRow = (\<lambda>cols raw r. (r, None)),
      zeroValue = (0, [])\<rparr>"

definition userDest :: "(int \<times> string) dest" where
  "userDest = \<lparr>tablerOf = Some users, target = StructPtr (5, ''ann'')\<rparr>"

text \<open>A store with one adapter, fresh from \<open>NewSqlAdapter\<close>, at address 1.\<close>

definition oneAdapter :: store where
  "oneAdapter = (\<lambda>a. if a = 1 then Some (NewSqlAdapter FlavorMySQL) else None)"

text \<open>A chain with a join, a sequence argument, a sub-builder, selected fields, a
  grouping, a having clause, an order and a limit, under the numbered dialect.\<close>

definition chainFiltered :: SqlQueryAdapter where
  "chainFiltered =
     Where (Join exampleTables (UseModel (NewSqlAdapter FlavorPostgres) users)
         ''JOIN p ON p.k = ?'' [AStr ''main''])
       (CondStr ''id IN ? AND status = ?'') [ASlice [AInt 1, AInt 2, AInt 3], AStr ''active'']"

definition chainSearch :: SqlQueryAdapter where
  "chainSearch = Or (Or chainFiltered ''name LIKE ?'' [AStr ''%a%'']) ''email LIKE ?'' [AStr ''%a%'']"

definition chainFull :: SqlQueryAdapter where
  "chainFull =
     Limit (Order exampleTables (Having exampleTables
       (GroupBy (Select (Where chainFiltered (CondSub chainSearch) [])
         [''users.id'', ''name'']) [''id'']) [''COUNT(id) > ?''] [AInt 1]) ''name ASC'') 10"

text \<open>Three chains: a \<open>Where\<close> with a marker and no argument; a \<open>Where\<close> with two markers,
  a scalar and an empty sequence; two \<open>Having\<close> with one marker and one argument each.\<close>

definition unmatchedWhere :: SqlQueryAdapter where
  "unmatchedWhere = Where (UseModel (NewSqlAdapter FlavorMySQL) users) (CondStr ''status = ?'') []"

definition mixedEmpty :: SqlQueryAdapter where
  "mixedEmpty =
     Where (UseModel (NewSqlAdapter FlavorMySQL) users)
       (CondStr ''age > ? AND id IN ?'') [AInt 18, ASlice []]"

definition havingTwice :: SqlQueryAdapter where
  "havingTwice =
     Having exampleTables
       (Having exampleTables (UseModel (NewSqlAdapter FlavorMySQL) users)
          [''COUNT(id) > ?''] [AInt 1])
       [''SUM(x) > ?''] [AInt 2]"

section \<open>Facts about the string functions\<close>

lemma Sprint_int_small:
  "Sprint_int 1 = ''1''" "Sprint_int 2 = ''2''" "Sprint_int 3 = ''3''" "Sprint_int 4 = ''4''"
  "Sprint_int 5 = ''5''" "Sprint_int 6 = ''6''" "Sprint_int 7 = ''7''" "Sprint_int 8 = ''8''"
  "Sprint_int 10 = ''10''"
  by code_simp+

lemma HasPrefix_iff: "HasPrefix s p \<longleftrightarrow> (\<exists>r. s = p @ r)"
  by (induction s p rule: HasPrefix.induct) auto

lemma Contains_iff: "Contains s sub \<longleftrightarrow> (\<exists>pre post. s = pre @ sub @ post)"
proof (induction s)
  case Nil
  then show ?case by auto
next
  case (Cons c cs)
  show ?case
  proof
    assume "Contains (c # cs) sub"
    then consider "HasPrefix (c # cs) sub" | "Contains cs sub" by auto
    then show "\<exists>pre post. c # cs = pre @ sub @ post"
    proof cases
      case 1
      then obtain r where "c # cs = sub @ r" by (auto simp: HasPrefix_iff)
      then have "c # cs = [] @ sub @ r" by simp
      then show ?thesis by blast
    next
      case 2
      then obtain pre post where "cs = pre @ sub @ post" using Cons.IH by auto
      then have "c # cs = (c # pre) @ sub @ post" by simp
      then show ?thesis by blast
    qed
  next
    assume "\<exists>pre post. c # cs = pre @ sub @ post"
    then obtain pre post where e: "c # cs = pre @ sub @ post" by auto
    show "Contains (c # cs) sub"
    proof (cases pre)
      case Nil
      with e have "HasPrefix (c # cs) sub" by (auto simp: HasPrefix_iff)
      then show ?thesis by simp
    next
      case (Cons a pre')
      with e have "cs = pre' @ sub @ post" by simp
      then have "Contains cs sub" using Cons.IH by auto
      then show ?thesis by simp
    qed
  qed
qed

lemma map_append_split:
  assumes "map f s = a @ b"
  obtains x y where "s = x @ y" and "map f x = a" and "map f y = b"
  using assms by (metis map_eq_append_conv)

lemma Contains_lower_iff:
  "Contains (map lower_byte s) t \<longleftrightarrow> (\<exists>pre w post. s = pre @ w @ post \<and> map lower_byte w = t)"
proof
  assume "Contains (map lower_byte s) t"
  then obtain a b where "map lower_byte s = a @ t @ b"
    by (auto simp: Contains_iff)
  then obtain pre r where s: "s = pre @ r" and r: "map lower_byte r = t @ b"
    by (rule map_append_split)
  from r obtain w post where "r = w @ post" and "map lower_byte w = t"
    by (rule map_append_split)
  with s show "\<exists>pre w post. s = pre @ w @ post \<and> map lower_byte w = t"
    by auto
next
  assume "\<exists>pre w post. s = pre @ w @ post \<and> map lower_byte w = t"
  then obtain pre w post where "s = pre @ w @ post" and "map lower_byte w = t" by auto
  then have "map lower_byte s = map lower_byte pre @ t @ map lower_byte post"
    by auto
  then show "Contains (map lower_byte s) t"
    unfolding Contains_iff by blast
qed

lemma mapRuns_ascii_Cons:
  "ascii_byte c \<Longrightarrow>
     mapRuns f g run (pre @ c # rest) = mapRuns f g run pre @ f c # mapRuns f g [] rest"
  by (induction pre arbitrary: run) auto

lemma mapRuns_ascii_prefix:
  "list_all ascii_byte w \<Longrightarrow> mapRuns f g [] (w @ rest) = map f w @ mapRuns f g [] rest"
  by (induction w) auto

lemma mapRuns_ascii_inside:
  assumes "list_all ascii_byte w" and "w \<noteq> []"
  shows "mapRuns f g [] (pre @ w @ post) = mapRuns f g [] pre @ map f w @ mapRuns f g [] post"
proof -
  from assms obtain c w' where w: "w = c # w'" and c: "ascii_byte c" and w': "list_all ascii_byte w'"
    by (cases w) auto
  show ?thesis
    unfolding w using mapRuns_ascii_Cons [OF c, of f g "[]" pre "w' @ post"]
      mapRuns_ascii_prefix [OF w', of f g post]
    by simp
qed

lemma ascii_lower_byte: "ascii_byte (lower_byte c) = ascii_byte c"
  by (auto simp: ascii_byte_def lower_byte_def in_range_def)

lemma ToUpper_ascii: "list_all ascii_byte s \<Longrightarrow> ToUpper uc s = map upper_byte s"
  using mapRuns_ascii_prefix [of s upper_byte "upperRun uc" "[]"] by (simp add: ToUpper_def)

lemma ToLower_ascii: "list_all ascii_byte s \<Longrightarrow> ToLower uc s = map lower_byte s"
  using mapRuns_ascii_prefix [of s lower_byte "lowerRun uc" "[]"] by (simp add: ToLower_def)

lemma fold_ascii:
  assumes "map lower_byte w = map lower_byte t" and "list_all ascii_byte t"
  shows "list_all ascii_byte w"
proof -
  have "list_all ascii_byte (map lower_byte x) = list_all ascii_byte x" for x
    by (induction x) (simp_all add: ascii_lower_byte)
  with assms show ?thesis by metis
qed

lemma scanPatterns_iff:
  "scanPatterns upperInput ps =
     (if \<exists>p \<in> set ps. Contains upperInput p then Some ErrSuspiciousPattern else None)"
  by (induction ps) auto

lemma upper_lower_byte: "upper_byte (lower_byte c) = upper_byte c"
  by (auto simp: upper_byte_def lower_byte_def in_range_def)

lemma fold_upper:
  assumes "map lower_byte w = map lower_byte t"
  shows "map upper_byte w = map upper_byte t"
proof -
  have "map upper_byte (map lower_byte x) = map upper_byte x" for x
    by (simp add: upper_lower_byte)
  with assms show ?thesis by metis
qed

text \<open>A text that has, between any bytes, a variant in upper and lower case of an ASCII
  text \<open>t\<close> has \<open>t\<close> itself after \<open>ToUpper\<close> when \<open>t\<close> is in upper case, and after
  \<open>ToLower\<close> when \<open>t\<close> is in lower case, whatever the tables are.\<close>

lemma ascii_occurrence_upper:
  assumes "map lower_byte w = map lower_byte t" and "list_all ascii_byte t" and "t \<noteq> []"
    and "map upper_byte t = t"
  shows "Contains (ToUpper uc (pre @ w @ post)) t"
proof -
  have a: "list_all ascii_byte w" using fold_ascii [OF assms(1,2)] .
  have n: "w \<noteq> []" using assms(1,3) by auto
  have "map upper_byte w = t" using fold_upper [OF assms(1)] assms(4) by simp
  with mapRuns_ascii_inside [OF a n, of upper_byte "upperRun uc" pre post]
  have "ToUpper uc (pre @ w @ post) = ToUpper uc pre @ t @ ToUpper uc post"
    by (simp add: ToUpper_def)
  then show ?thesis unfolding Contains_iff by blast
qed

lemma ascii_occurrence_lower:
  assumes "map lower_byte w = t" and "list_all ascii_byte t" and "t \<noteq> []"
  shows "Contains (ToLower uc (pre @ w @ post)) t"
proof -
  have "list_all ascii_byte (map lower_byte x) = list_all ascii_byte x" for x
    by (induction x) (simp_all add: ascii_lower_byte)
  with assms have a: "list_all ascii_byte w" by metis
  have n: "w \<noteq> []" using assms(1,3) by auto
  from mapRuns_ascii_inside [OF a n, of lower_byte "lowerRun uc" pre post] assms(1)
  have "ToLower uc (pre @ w @ post) = ToLower uc pre @ t @ ToLower uc post"
    by (simp add: ToLower_def)
  then show ?thesis unfolding Contains_iff by blast
qed

lemma common_upper:
  "t \<in> set commonSuspiciousPatterns \<Longrightarrow> map upper_byte t = t \<and> list_all ascii_byte t"
  unfolding commonSuspiciousPatterns_def
  apply simp
  apply (elim disjE)
  apply (simp_all add: upper_byte_def in_range_def ascii_byte_def)
  done

lemma common_nonempty: "t \<in> set commonSuspiciousPatterns \<Longrightarrow> t \<noteq> []"
  by (auto simp: commonSuspiciousPatterns_def)

lemma digit_char_neq:
  assumes "d < 10" and "(of_char c :: nat) < 48 \<or> 57 < (of_char c :: nat)"
  shows "char_of (48 + d :: nat) \<noteq> c"
proof
  assume "char_of (48 + d) = c"
  then have "(of_char (char_of (48 + d)) :: nat) = of_char c" by simp
  then have "(48 + d) mod 256 = (of_char c :: nat)" by simp
  with assms show False by auto
qed

lemma digits_chars:
  assumes "(of_char c :: nat) < 48 \<or> 57 < (of_char c :: nat)"
  shows "c \<notin> set (digits n)"
proof (induction n rule: digits.induct)
  case (1 n)
  show ?case
  proof (cases "n < 10")
    case True
    then show ?thesis
      using digit_char_neq [OF True assms] by (subst digits.simps) auto
  next
    case False
    have "n mod 10 < 10" by simp
    from digit_char_neq [OF this assms] 1 False show ?thesis
      by (subst digits.simps) auto
  qed
qed

lemma Sprint_int_no_marker: "CHR ''?'' \<notin> set (Sprint_int i)"
  using digits_chars [of "CHR ''?''"] by (simp add: Sprint_int_def)

lemma numberMarkers_append:
  "numberMarkers (pre @ post) idx =
     numberMarkers pre idx @ numberMarkers post (idx + int (Count_q pre))"
  by (induction pre arbitrary: idx) (auto simp: Count_q_def add.assoc)

lemma numberMarkers_no_marker: "CHR ''?'' \<notin> set (numberMarkers s idx)"
  by (induction s arbitrary: idx) (auto simp: Sprint_int_no_marker)


section \<open>Facts about the regular expressions\<close>

text \<open>\<open>MatchString\<close> accepts a text exactly when the text is in the language of the
  pattern; a text that is accepted has its bytes in the character classes of the
  pattern, and no pattern of the validators of \<open>Order\<close>, \<open>Select\<close> and \<open>GroupBy\<close> has a
  class with \<open>?\<close>.\<close>

inductive_simps accepts_Zero [simp]: "accepts Zero s"
inductive_simps accepts_One [simp]: "accepts One s"
inductive_simps accepts_Sym [simp]: "accepts (Sym p) s"
inductive_simps accepts_Alt [simp]: "accepts (Alt r r') s"
inductive_simps accepts_Seq: "accepts (Seq r r') s"

lemma nullable_accepts: "nullable r \<longleftrightarrow> accepts r []"
  by (induction r) (auto simp: accepts_Seq intro: accepts.intros)

lemma accepts_Star_Cons:
  assumes "accepts (Star r) (c # s)"
  shows "\<exists>u v. s = u @ v \<and> accepts r (c # u) \<and> accepts (Star r) v"
  using assms
proof (induction "Star r" "c # s" arbitrary: s rule: accepts.induct)
  case (acc_StarStep x t)
  show ?case
  proof (cases x)
    case Nil
    with acc_StarStep show ?thesis by simp
  next
    case (Cons a u)
    with acc_StarStep have "s = u @ t" and "accepts r (c # u)" and "accepts (Star r) t"
      by auto
    then show ?thesis by blast
  qed
qed

lemma deriv_accepts: "accepts (deriv c r) s \<longleftrightarrow> accepts r (c # s)"
proof (induction r arbitrary: s)
  case Zero
  show ?case by simp
next
  case One
  show ?case by simp
next
  case (Sym p)
  show ?case by auto
next
  case (Alt r1 r2)
  then show ?case by simp
next
  case (Seq r1 r2)
  show ?case
  proof
    assume "accepts (deriv c (Seq r1 r2)) s"
    then consider u v where "s = u @ v" "accepts (deriv c r1) u" "accepts r2 v"
      | "nullable r1" "accepts (deriv c r2) s"
      by (auto simp: accepts_Seq split: if_splits)
    then show "accepts (Seq r1 r2) (c # s)"
    proof cases
      case 1
      then have "accepts r1 (c # u)" using Seq.IH(1) by simp
      with 1 have "accepts (Seq r1 r2) ((c # u) @ v)" by (intro acc_Seq)
      with 1 show ?thesis by simp
    next
      case 2
      then have "accepts r1 []" and "accepts r2 (c # s)"
        using Seq.IH(2) by (simp_all add: nullable_accepts)
      then have "accepts (Seq r1 r2) ([] @ (c # s))" by (intro acc_Seq)
      then show ?thesis by simp
    qed
  next
    assume "accepts (Seq r1 r2) (c # s)"
    then obtain x y where xy: "c # s = x @ y" "accepts r1 x" "accepts r2 y"
      by (auto simp: accepts_Seq)
    show "accepts (deriv c (Seq r1 r2)) s"
    proof (cases x)
      case Nil
      with xy have "nullable r1" and "accepts (deriv c r2) s"
        using Seq.IH(2) by (simp_all add: nullable_accepts)
      then show ?thesis by simp
    next
      case (Cons a u)
      with xy have "s = u @ y" and "accepts (deriv c r1) u"
        using Seq.IH(1) by simp_all
      with xy have "accepts (Seq (deriv c r1) r2) s"
        by (auto simp: accepts_Seq)
      then show ?thesis by simp
    qed
  qed
next
  case (Star r)
  show ?case
  proof
    assume "accepts (deriv c (Star r)) s"
    then obtain u v where "s = u @ v" "accepts (deriv c r) u" "accepts (Star r) v"
      by (auto simp: accepts_Seq)
    then have s: "s = u @ v" and "accepts r (c # u)" and "accepts (Star r) v"
      using Star.IH by simp_all
    then have "accepts (Star r) ((c # u) @ v)" by (intro acc_StarStep)
    with s show "accepts (Star r) (c # s)" by simp
  next
    assume "accepts (Star r) (c # s)"
    then obtain u v where "s = u @ v" "accepts r (c # u)" "accepts (Star r) v"
      using accepts_Star_Cons by blast
    then show "accepts (deriv c (Star r)) s"
      using Star.IH by (auto simp: accepts_Seq)
  qed
qed

lemma MatchString_accepts: "MatchString r s \<longleftrightarrow> accepts r s"
  by (induction s arbitrary: r) (simp_all add: nullable_accepts deriv_accepts)

lemma accepts_allows: "accepts r s \<Longrightarrow> c \<in> set s \<Longrightarrow> allows r c"
  by (induction rule: accepts.induct) auto

lemma MatchString_allows: "MatchString r s \<Longrightarrow> c \<in> set s \<Longrightarrow> allows r c"
  by (simp add: MatchString_accepts accepts_allows)

lemma allows_Lit: "allows (Lit t) c \<longleftrightarrow> c \<in> set t"
  by (induction t) auto

lemma no_marker_in_patterns:
  "\<not> allows orderByPattern CHR ''?''" "\<not> allows sqlIdentifierPattern CHR ''?''"
  "\<not> allows columnNamePattern CHR ''?''"
  by (simp_all add: orderByPattern_def re_order_term_def re_identifier_def sqlIdentifierPattern_def
      columnNamePattern_def Opt_def Plus_def allows_Lit cls_ident_start_def cls_ident_def
      cls_s_def in_range_def)


section \<open>The example builders, evaluated\<close>

lemma scenario_state:
  "scenario fl =
     \<lparr>flavor = fl, table = ''users'', fields' = [''*''], groups = [], havings = [], havingArgs = [],
      joins = [], joinArgs = [], wheres = [''status = ?''], whereArgs = [AStr ''active''],
      orWheres = [''role = ?'', ''role = ?''], orArgs = [AStr ''admin'', AStr ''owner''],
      orderBy = ''created_at DESC'', limit = Some 10, offset = None, model = Some users\<rparr>"
  by (simp add: scenario_def Limit_def UnsafeOrder_def Or_def Where_def UseModel_def
      NewSqlAdapter_def clone_def users_def)

lemma parent_state:
  "parent =
     \<lparr>flavor = FlavorMySQL, table = ''users'', fields' = [''*''], groups = [], havings = [],
      havingArgs = [], joins = [], joinArgs = [], wheres = [''tenant = ?''], whereArgs = [AInt 7],
      orWheres = [], orArgs = [], orderBy = [], limit = None, offset = None, model = Some users\<rparr>"
  by (simp add: parent_def Where_def UseModel_def NewSqlAdapter_def clone_def users_def)

lemma child_state:
  "child =
     parent\<lparr>wheres := [''tenant = ?'', ''age > ?''], whereArgs := [AInt 7, AInt 18],
       orWheres := [''name LIKE ?'', ''email LIKE ?''], orArgs := [AStr ''%a%'', AStr ''%a%'']\<rparr>"
  by (simp add: child_def parent_state Where_def Or_def clone_def)


lemma byLimitCount_state:
  "byLimitCount = (UseModel (NewSqlAdapter FlavorMySQL) users)\<lparr>orderBy := ''limit_count''\<rparr>"
proof -
  have "ValidateOrderBy exampleTables ''limit_count'' = None" by code_simp
  then show ?thesis by (simp add: byLimitCount_def Order_def clone_def)
qed

text \<open>With the tables of the examples, \<open>ValidateOrderBy\<close> finds \<open>SELECT\<close> in a text that
  starts with U+017F, and \<open>strings.TrimSpace\<close> removes U+00A0.\<close>

lemma unicode_examples:
  "ValidateOrderBy exampleTables ([CHR 0xC5, CHR 0xBF] @ ''elect'') = Some ErrSuspiciousPattern"
  "TrimSpace ([CHR 0xC2, CHR 0xA0] @ ''name'' @ [CHR 0xC2, CHR 0xA0]) = ''name''"
  by code_simp+

lemma byLimitCount_build:
  "build False byLimitCount = (''SELECT * FROM users ORDER BY limit_count'', [])"
  by (simp add: byLimitCount_state build_def selectText_def whereText_def whereArgsOut_def
      tailText_def UseModel_def NewSqlAdapter_def clone_def users_def)

lemma parent_build:
  "build False parent = (''SELECT * FROM users WHERE tenant = ?'', [AInt 7])"
  by (simp add: parent_state build_def selectText_def whereText_def whereArgsOut_def
      tailText_def)

lemma byDottedName_state:
  "byDottedName = (UseModel (NewSqlAdapter FlavorMySQL) users)\<lparr>orderBy := dottedName\<rparr>"
  by (simp add: byDottedName_def UnsafeOrder_def clone_def)

lemma byDottedName_build:
  "build False byDottedName = (''SELECT * FROM users ORDER BY '' @ dottedName, [])"
  by (simp add: byDottedName_state build_def selectText_def whereText_def whereArgsOut_def
      tailText_def UseModel_def NewSqlAdapter_def clone_def users_def dottedName_def)

lemma bindModel_examples:
  "bindModel byLimitCount (tablerOf userDest) = Inr byLimitCount"
  "bindModel parent (tablerOf userDest) = Inr parent"
  "bindModel byDottedName (tablerOf userDest) = Inr byDottedName"
  by (simp_all add: bindModel_def byLimitCount_state parent_state byDottedName_state
      UseModel_def clone_def)

lemma limit_in_examples:
  "Contains (ToLower exampleTables ''SELECT * FROM users ORDER BY limit_count'') ''limit''"
  "\<not> Contains (ToLower exampleTables ''SELECT * FROM users WHERE tenant = ?'') ''limit''"
  "Contains (ToLower exampleTables (''SELECT * FROM users ORDER BY '' @ dottedName)) ''limit''"
  by code_simp+

lemma parent_issued:
  "issued (First exampleTables emptyEnv parent userDest)
     = Some (''SELECT * FROM users WHERE tenant = ? LIMIT 1'', [AInt 7])"
  "issued (Scan emptyEnv parent userDest)
     = Some (''SELECT * FROM users WHERE tenant = ?'', [AInt 7])"
  by (simp_all add: First_def Scan_def bindModel_examples parent_build limit_in_examples
      emptyEnv_def emptyCursor_def split: prod.splits)

section \<open>The scenario of the specification\<close>

text \<open>
  C4. A builder over table \<open>users\<close> with the AND fragment \<open>status = ?\<close> (argument
  \<open>"active"\<close>), the OR fragments \<open>role = ?\<close> (arguments \<open>"admin"\<close> and \<open>"owner"\<close>), the
  order \<open>created_at DESC\<close> and the limit 10 assembles to
  \<open>SELECT * FROM users WHERE status = ? OR (role = ? OR role = ?) ORDER BY created_at DESC LIMIT 10\<close>
  with the arguments \<open>["active", "admin", "owner"]\<close> under the generic dialect, and to the
  same text with \<open>$1\<close>, \<open>$2\<close>, \<open>$3\<close> under the numbered dialect.
\<close>

theorem build_users_scenario:
  assumes "table q = ''users''" and "fields' q = [''*'']" and "joins q = []" and "joinArgs q = []"
    and "wheres q = [''status = ?'']" and "whereArgs q = [AStr ''active'']"
    and "orWheres q = [''role = ?'', ''role = ?'']" and "orArgs q = [AStr ''admin'', AStr ''owner'']"
    and "groups q = []" and "havings q = []"
    and "orderBy q = ''created_at DESC''" and "limit q = Some 10" and "offset q = None"
  shows "build False q =
          (if flavor q = FlavorPostgres
           then ''SELECT * FROM users WHERE status = $1 OR (role = $2 OR role = $3) ORDER BY created_at DESC LIMIT 10''
           else ''SELECT * FROM users WHERE status = ? OR (role = ? OR role = ?) ORDER BY created_at DESC LIMIT 10'',
           [AStr ''active'', AStr ''admin'', AStr ''owner''])"
  using assms
  by (simp add: build_def selectText_def whereText_def whereArgsOut_def tailText_def
      Sprint_int_small)

theorem build_users_scenario_witness:
  "build False (scenario FlavorMySQL) =
     (''SELECT * FROM users WHERE status = ? OR (role = ? OR role = ?) ORDER BY created_at DESC LIMIT 10'',
      [AStr ''active'', AStr ''admin'', AStr ''owner''])
   \<and> build False (scenario FlavorPostgres) =
     (''SELECT * FROM users WHERE status = $1 OR (role = $2 OR role = $3) ORDER BY created_at DESC LIMIT 10'',
      [AStr ''active'', AStr ''admin'', AStr ''owner''])"
  using build_users_scenario [of "scenario FlavorMySQL"]
    build_users_scenario [of "scenario FlavorPostgres"]
  by (simp add: scenario_state)


section \<open>\<open>Where\<close> with an empty sequence\<close>

text \<open>
  C5. \<open>Where\<close> with a condition and one argument that is an empty sequence appends the
  constant false predicate \<open>1=0\<close> in place of the condition (whatever the condition is,
  so also when it has a single placeholder) and adds no argument to the argument list.
\<close>

theorem Where_empty_sequence:
  "Where q (CondStr condStr) [ASlice []] =
     q\<lparr>wheres := wheres q @ [''1=0''], whereArgs := whereArgs q\<rparr>"
  by (simp add: Where_def clone_def)


section \<open>\<open>Where\<close> with a sub-builder\<close>

lemma countCommon_prefix:
  "countCommon ws (ws @ rest) common argsToDrop =
     (common + length ws, argsToDrop + sum_list (map Count_q ws))"
  by (induction ws arbitrary: common argsToDrop) auto

text \<open>
  C6. When the sub-builder has the model of the receiver and its AND fragments start with
  the AND fragments of the receiver, \<open>Where\<close> strips these leading fragments, drops as
  many leading arguments of the sub-builder as the stripped fragments have \<open>?\<close>, and
  appends one grouped fragment: the remaining AND fragments joined by \<open>AND\<close>, then the
  OR fragments, if any, joined by \<open>OR\<close> in parentheses of their own (after \<open>OR\<close> when AND
  fragments remain), all in parentheses. The arguments that remain and the OR arguments
  follow the receiver's arguments.
\<close>

theorem Where_sub_builder_strips_prefix:
  assumes "model sub = model q" and "wheres sub = wheres q @ rest"
  shows "Where q (CondSub sub) args =
     q\<lparr>wheres := wheres q @
          [''('' @ strings_Join rest '' AND ''
           @ (if orWheres sub = [] then []
              else (if rest = [] then [] else '' OR '')
                   @ ''('' @ strings_Join (orWheres sub) '' OR '' @ '')'')
           @ '')''],
        whereArgs := whereArgs q
          @ drop (sum_list (map Count_q (wheres q))) (whereArgs sub) @ orArgs sub\<rparr>"
proof -
  have "stripCommon q sub = (rest, drop (sum_list (map Count_q (wheres q))) (whereArgs sub))"
  proof (cases "wheres q = []")
    case True
    with assms show ?thesis by (simp add: stripCommon_def)
  next
    case False
    with assms show ?thesis
      by (simp add: stripCommon_def countCommon_prefix)
  qed
  then show ?thesis
    by (simp add: Where_def clone_def groupText_def)
qed

theorem Where_sub_builder_strips_prefix_witness:
  "model child = model parent \<and> wheres child = wheres parent @ [''age > ?'']
   \<and> wheres (Where parent (CondSub child) []) =
        [''tenant = ?'', ''(age > ? OR (name LIKE ? OR email LIKE ?))'']
   \<and> whereArgs (Where parent (CondSub child) []) =
        [AInt 7, AInt 18, AStr ''%a%'', AStr ''%a%'']"
proof -
  have m: "model child = model parent"
    by (simp add: child_state)
  have w: "wheres child = wheres parent @ [''age > ?'']"
    by (simp add: child_state parent_state)
  have n: "sum_list (map Count_q (wheres parent)) = 1"
    by (simp add: parent_state Count_q_def)
  from Where_sub_builder_strips_prefix [OF m w, of "[]"] m w n show ?thesis
    by (simp add: child_state parent_state)
qed


section \<open>The denylist of \<open>ValidateOrderBy\<close>\<close>

text \<open>
  C1, as the code has it. An input that contains, with each letter in upper or lower
  case and between any bytes, one of the sixteen tokens of \<open>commonSuspiciousPatterns\<close> is
  rejected whatever its grammar and whatever the case tables do on the bytes that are
  not ASCII: with the suspicious-pattern error when it has at most 256 bytes, and with
  the invalid-order-by error of the length check, which comes first, when it is longer.
\<close>

theorem ValidateOrderBy_rejects_common_token:
  assumes "input = pre @ w @ post" and "map lower_byte w = map lower_byte t"
    and "t \<in> set commonSuspiciousPatterns"
  shows "ValidateOrderBy uc input =
           (if length input \<le> 256 then Some ErrSuspiciousPattern else Some ErrInvalidOrderBy)"
proof -
  have ne: "t \<noteq> []" using common_nonempty [OF assms(3)] .
  have "Contains (ToUpper uc (pre @ w @ post)) t"
    using ascii_occurrence_upper [OF assms(2) _ ne] common_upper [OF assms(3)] by simp
  then have scan:
    "scanPatterns (ToUpper uc input) commonSuspiciousPatterns = Some ErrSuspiciousPattern"
    using assms(1,3) by (auto simp: scanPatterns_iff)
  have "length w = length t"
    using assms(2) by (metis length_map)
  then have "input \<noteq> []"
    using assms(1) ne by auto
  with scan show ?thesis
    by (simp add: ValidateOrderBy_def validateLength_def validateSuspiciousPatterns_def
        maxOrderByLen_def)
qed

theorem ValidateOrderBy_rejects_common_token_witness:
  "''DROP'' \<in> set commonSuspiciousPatterns
   \<and> ValidateOrderBy exampleTables ''name ASC; DROP TABLE users'' = Some ErrSuspiciousPattern
   \<and> ValidateOrderBy exampleTables ''name asc, id desc , drop_flag'' = Some ErrSuspiciousPattern
   \<and> ValidateOrderBy exampleTables ([CHR 0xE4, CHR 0xB8, CHR 0xAD] @ ''DrOp'' @ [CHR 0xE6, CHR 0x96, CHR 0x87])
       = Some ErrSuspiciousPattern"
proof -
  have l: "map lower_byte ''DROP'' = map lower_byte ''DROP''"
    "map lower_byte ''drop'' = map lower_byte ''DROP''"
    "map lower_byte ''DrOp'' = map lower_byte ''DROP''"
    by code_simp+
  have m: "''DROP'' \<in> set commonSuspiciousPatterns"
    by (simp add: commonSuspiciousPatterns_def)
  have "ValidateOrderBy exampleTables ''name ASC; DROP TABLE users'' = Some ErrSuspiciousPattern"
    using ValidateOrderBy_rejects_common_token
      [OF _ l(1) m, of _ "''name ASC; ''" "'' TABLE users''" exampleTables] by simp
  moreover
  have "ValidateOrderBy exampleTables ''name asc, id desc , drop_flag'' = Some ErrSuspiciousPattern"
    using ValidateOrderBy_rejects_common_token
      [OF _ l(2) m, of _ "''name asc, id desc , ''" "''_flag''" exampleTables] by simp
  moreover
  have "ValidateOrderBy exampleTables
          ([CHR 0xE4, CHR 0xB8, CHR 0xAD] @ ''DrOp'' @ [CHR 0xE6, CHR 0x96, CHR 0x87])
        = Some ErrSuspiciousPattern"
    using ValidateOrderBy_rejects_common_token
      [OF _ l(3) m, of _ "[CHR 0xE4, CHR 0xB8, CHR 0xAD]" "[CHR 0xE6, CHR 0x96, CHR 0x87]"
        exampleTables]
    by simp
  ultimately show ?thesis using m by simp
qed

text \<open>
  C1, as stated, fails. The four metadata tokens are in \<open>databaseMetadataPatterns\<close>, which
  \<open>ValidateOrderBy\<close> does not pass to \<open>validateSuspiciousPatterns\<close>: the inputs
  \<open>pg_class\<close>, \<open>sys.tables\<close>, \<open>mysql.user\<close> and \<open>information_schema\<close> contain one each
  and are accepted. And an input of 257 bytes that ends in the token \<open>;\<close> is rejected by
  the length check, with the invalid-order-by error. (These inputs are ASCII, so the
  tables are not consulted.)
\<close>

theorem ValidateOrderBy_accepts_metadata_token:
  "map lower_byte ''pg_'' = map lower_byte ''PG_'' \<and> ''PG_'' \<in> set databaseMetadataPatterns
   \<and> ValidateOrderBy exampleTables (''pg_'' @ ''class'') = None
   \<and> map lower_byte ''sys.'' = map lower_byte ''SYS.'' \<and> ''SYS.'' \<in> set databaseMetadataPatterns
   \<and> ValidateOrderBy exampleTables (''sys.'' @ ''tables'') = None
   \<and> map lower_byte ''mysql.'' = map lower_byte ''MYSQL.''
   \<and> ''MYSQL.'' \<in> set databaseMetadataPatterns
   \<and> ValidateOrderBy exampleTables (''mysql.'' @ ''user'') = None
   \<and> map lower_byte ''information_schema'' = map lower_byte ''INFORMATION_SCHEMA''
   \<and> ''INFORMATION_SCHEMA'' \<in> set databaseMetadataPatterns
   \<and> ValidateOrderBy exampleTables ''information_schema'' = None
   \<and> '';'' \<in> set commonSuspiciousPatterns
   \<and> length (replicate 256 (CHR ''a'') @ '';'') = 257
   \<and> ValidateOrderBy exampleTables (replicate 256 (CHR ''a'') @ '';'') = Some ErrInvalidOrderBy"
  by code_simp


section \<open>Rejected input leaves the builder as it is\<close>

text \<open>
  C3. When the validator of \<open>Order\<close>, \<open>Join\<close>, \<open>Select\<close>, \<open>GroupBy\<close> or \<open>Having\<close> rejects
  the input, the method returns its receiver: the builder is unchanged, the result is a
  builder and no error, and whatever is called on the result afterwards (\<open>later\<close>)
  assembles the statement it would assemble on the receiver, so the rejected text is not
  added to any statement. This holds whatever the validator decides on: the method
  returns the receiver on every error of its validator.
\<close>

theorem rejected_input_is_noop:
  "(ValidateOrderBy uc ord \<noteq> None
      \<longrightarrow> Order uc q ord = q \<and> build count (later (Order uc q ord)) = build count (later q))
   \<and> (ValidateJoinClause uc joinClause \<noteq> None
      \<longrightarrow> Join uc q joinClause args = q
          \<and> build count (later (Join uc q joinClause args)) = build count (later q))
   \<and> ((\<exists>e. SanitizeSelectFields sel = Inl e)
      \<longrightarrow> Select q sel = q \<and> build count (later (Select q sel)) = build count (later q))
   \<and> ((\<exists>e. SanitizeColumnNames cols = Inl e)
      \<longrightarrow> GroupBy q cols = q \<and> build count (later (GroupBy q cols)) = build count (later q))
   \<and> (ValidateHavingClause uc clauses \<noteq> None
      \<longrightarrow> Having uc q clauses hargs = q
          \<and> build count (later (Having uc q clauses hargs)) = build count (later q))"
  by (auto simp: Order_def Join_def Select_def GroupBy_def Having_def)

theorem rejected_input_is_noop_witness:
  "Order exampleTables parent ''name; DROP TABLE users; --'' = parent
   \<and> Join exampleTables parent ''JOIN users; DELETE FROM posts; --'' [] = parent
   \<and> Select parent [''*; DROP TABLE users''] = parent
   \<and> GroupBy parent [''id'', ''a b''] = parent
   \<and> Having exampleTables parent [''COUNT(id) > ?'', ''1=1 UNION ALL''] [AInt 1] = parent
   \<and> build False (Limit (Order exampleTables parent ''name; DROP TABLE users; --'') 5)
       = build False (Limit parent 5)"
proof -
  have r1: "ValidateOrderBy exampleTables ''name; DROP TABLE users; --'' \<noteq> None"
    by code_simp
  have r2: "ValidateJoinClause exampleTables ''JOIN users; DELETE FROM posts; --'' \<noteq> None"
    by code_simp
  have r3: "\<exists>e. SanitizeSelectFields [''*; DROP TABLE users''] = Inl e"
  proof
    show "SanitizeSelectFields [''*; DROP TABLE users''] = Inl ErrInvalidIdentifier"
      by code_simp
  qed
  have r4: "\<exists>e. SanitizeColumnNames [''id'', ''a b''] = Inl e"
  proof
    show "SanitizeColumnNames [''id'', ''a b''] = Inl ErrInvalidColumnName"
      by code_simp
  qed
  have r5: "ValidateHavingClause exampleTables [''COUNT(id) > ?'', ''1=1 UNION ALL''] \<noteq> None"
    by code_simp
  from rejected_input_is_noop
    [of exampleTables "''name; DROP TABLE users; --''" parent False "\<lambda>b. Limit b 5"
      "''JOIN users; DELETE FROM posts; --''" "[]" "[''*; DROP TABLE users'']"
      "[''id'', ''a b'']" "[''COUNT(id) > ?'', ''1=1 UNION ALL'']" "[AInt 1]"]
    r1 r2 r3 r4 r5
  show ?thesis by blast
qed


section \<open>The pass that numbers the markers\<close>

text \<open>
  C7, as the code has it. Under the numbered dialect the statement is the generic text
  after \<open>numberMarkers\<close>, and that pass rewrites every \<open>?\<close> byte, wherever it stands, also
  inside a quoted constant of a fragment: the \<open>?\<close> that follows a text \<open>pre\<close> becomes
  \<open>$\<close> and the number of \<open>?\<close> in \<open>pre\<close> plus one, and no \<open>?\<close> is left in the result.
\<close>

theorem numberMarkers_every_marker:
  "fst (build count (q\<lparr>flavor := FlavorPostgres\<rparr>))
     = numberMarkers (fst (build count (q\<lparr>flavor := FlavorMySQL\<rparr>))) 0
   \<and> numberMarkers (pre @ CHR ''?'' # post) idx
     = numberMarkers pre idx @ ''$'' @ Sprint_int (idx + int (Count_q pre) + 1)
       @ numberMarkers post (idx + int (Count_q pre) + 1)
   \<and> CHR ''?'' \<notin> set (numberMarkers s idx)"
  by (simp add: numberMarkers_append numberMarkers_no_marker build_def selectText_def whereText_def tailText_def add.assoc)

text \<open>
  C7, as stated, fails: in \<open>name = 'what?' AND id = ?\<close> the \<open>?\<close> of the quoted constant
  becomes \<open>$1\<close>, and the placeholder becomes \<open>$2\<close> with one argument in the list.
\<close>

theorem build_numbers_quoted_marker:
  "build False (Where (UseModel (NewSqlAdapter FlavorPostgres) users)
        (CondStr ''name = 'what?' AND id = ?'') [AInt 5])
     = (''SELECT * FROM users WHERE name = 'what$1' AND id = $2'', [AInt 5])"
  by (simp add: build_def selectText_def whereText_def whereArgsOut_def tailText_def
      Where_def UseModel_def NewSqlAdapter_def clone_def users_def Sprint_int_small)


section \<open>No rows: \<open>First\<close> and \<open>Scan\<close>\<close>

text \<open>
  C8. When the statement that \<open>First\<close> has issued is answered by a cursor with no rows
  and no error, \<open>First\<close> returns \<open>ErrNotFound\<close> (and leaves the destination as it was).
  When the statement that \<open>Scan\<close> has issued is answered so and the destination points
  to a struct, \<open>Scan\<close> returns no error and the struct is untouched.
\<close>

theorem no_rows_First_not_found_Scan_untouched:
  "(issued (First uc env q dest) = Some (s1, a1) \<and> QueryContext env s1 a1 = Inr rws1
      \<and> pending rws1 = [] \<and> rowsErr rws1 = None
     \<longrightarrow> err (First uc env q dest) = Some ErrNotFound
         \<and> targetOut (First uc env q dest) = target dest)
   \<and> (issued (Scan env q dest) = Some (s2, a2) \<and> QueryContext env s2 a2 = Inr rws2
      \<and> pending rws2 = [] \<and> rowsErr rws2 = None \<and> target dest = StructPtr r
     \<longrightarrow> err (Scan env q dest) = None \<and> targetOut (Scan env q dest) = StructPtr r)"
  by (auto simp: First_def Scan_def Let_def split: sum.splits prod.splits list.splits)

theorem no_rows_First_not_found_Scan_untouched_witness:
  "err (First exampleTables emptyEnv parent userDest) = Some ErrNotFound
   \<and> err (Scan emptyEnv parent userDest) = None
   \<and> targetOut (Scan emptyEnv parent userDest) = StructPtr (5, ''ann'')"
proof -
  have e: "QueryContext emptyEnv s a = Inr emptyCursor" for s a
    by (simp add: emptyEnv_def)
  have c: "pending emptyCursor = []" "rowsErr emptyCursor = None"
    by (simp_all add: emptyCursor_def)
  have t: "target userDest = StructPtr (5, ''ann'')"
    by (simp add: userDest_def)
  from no_rows_First_not_found_Scan_untouched
    [of exampleTables emptyEnv parent userDest
      "''SELECT * FROM users WHERE tenant = ? LIMIT 1''" "[AInt 7]"
      emptyCursor "''SELECT * FROM users WHERE tenant = ?''" "[AInt 7]" emptyCursor
      "(5, ''ann'')"]
    parent_issued e c t
  show ?thesis by simp
qed


section \<open>\<open>Scan\<close> and \<open>First\<close> bind the model in place\<close>

text \<open>
  C9. When the adapter at address \<open>p\<close> has no model and the destination names its table,
  \<open>Scan\<close> and \<open>First\<close> write the model and the table name into the adapter at \<open>p\<close>: the
  store after the call differs from the store before it at \<open>p\<close> only, where every holder
  of the pointer reads the new fields, and no adapter is added. The statement issued
  is assembled from the adapter after the assignment (for \<open>First\<close> with what it appends).
\<close>

theorem Scan_First_bind_model_in_place:
  assumes "st p = Some q" and "model q = None" and "tablerOf dest = Some t"
  shows "fst (ScanAt env st p dest) = st(p := Some (q\<lparr>model := Some t, table := TableName t\<rparr>))
    \<and> fst (FirstAt uc env st p dest) = st(p := Some (q\<lparr>model := Some t, table := TableName t\<rparr>))
    \<and> snd (snd (snd (ScanAt env st p dest)))
        = Some (build False (q\<lparr>model := Some t, table := TableName t\<rparr>))
    \<and> (\<exists>suffix. snd (snd (snd (FirstAt uc env st p dest)))
        = Some (fst (build False (q\<lparr>model := Some t, table := TableName t\<rparr>)) @ suffix,
                snd (build False (q\<lparr>model := Some t, table := TableName t\<rparr>))))"
  using assms
  by (auto simp: ScanAt_def FirstAt_def Scan_def First_def bindModel_def Let_def
      split: sum.splits prod.splits list.splits)

theorem Scan_First_bind_model_in_place_witness:
  "fst (ScanAt emptyEnv oneAdapter 1 userDest) 1
     = Some ((NewSqlAdapter FlavorMySQL)\<lparr>model := Some users, table := ''users''\<rparr>)
   \<and> fst (FirstAt exampleTables emptyEnv oneAdapter 1 userDest) 1
     = Some ((NewSqlAdapter FlavorMySQL)\<lparr>model := Some users, table := ''users''\<rparr>)
   \<and> snd (snd (snd (ScanAt emptyEnv oneAdapter 1 userDest)))
     = Some (''SELECT * FROM users'', [])"
proof -
  have s: "oneAdapter 1 = Some (NewSqlAdapter FlavorMySQL)"
    by (simp add: oneAdapter_def)
  have m: "model (NewSqlAdapter FlavorMySQL) = None"
    by (simp add: NewSqlAdapter_def)
  have d: "tablerOf userDest = Some users"
    by (simp add: userDest_def)
  have b: "build False ((NewSqlAdapter FlavorMySQL)\<lparr>model := Some users, table := TableName users\<rparr>)
             = (''SELECT * FROM users'', [])"
    by (simp add: build_def selectText_def whereText_def whereArgsOut_def tailText_def
        NewSqlAdapter_def users_def)
  from Scan_First_bind_model_in_place
    [where st = oneAdapter and p = 1 and q = "NewSqlAdapter FlavorMySQL" and dest = userDest
      and t = users and env = emptyEnv and uc = exampleTables, OF s m d] b
  show ?thesis
    by (simp add: users_def)
qed


section \<open>\<open>First\<close> and the suffix \<open>LIMIT 1\<close>\<close>

text \<open>
  C10. For every builder, every destination and every engine, \<open>First\<close> issues the
  assembled statement as it is when the statement contains \<open>limit\<close> at some position
  without regard to case, which the code decides on the statement in lower case
  (\<open>strings.ToLower\<close>), and with \<open>LIMIT 1\<close> appended otherwise. So a statement that has,
  between any bytes, \<open>limit\<close> with each letter in upper or lower case, as in
  \<open>ORDER BY limit_count\<close>, is issued without the suffix; for an ASCII statement this
  is the only case without the suffix. This holds whatever the case tables do on the
  bytes that are not ASCII.
\<close>

theorem First_appends_limit:
  assumes "bindModel q (tablerOf dest) = Inr q'" and "build False q' = (sqlStr, args)"
  shows "issued (First uc env q dest) =
           Some (if \<exists>pre post. ToLower uc sqlStr = pre @ ''limit'' @ post
                 then sqlStr else sqlStr @ '' LIMIT 1'', args)
    \<and> ((\<exists>pre w post. sqlStr = pre @ w @ post \<and> map lower_byte w = ''limit'')
        \<longrightarrow> issued (First uc env q dest) = Some (sqlStr, args))
    \<and> (list_all ascii_byte sqlStr
        \<longrightarrow> issued (First uc env q dest) =
              Some (if \<exists>pre w post. sqlStr = pre @ w @ post \<and> map lower_byte w = ''limit''
                    then sqlStr else sqlStr @ '' LIMIT 1'', args))"
proof -
  let ?low = "Contains (ToLower uc sqlStr) ''limit''"
  let ?mix = "\<exists>pre w post. sqlStr = pre @ w @ post \<and> map lower_byte w = ''limit''"
  have i: "issued (First uc env q dest) =
             Some (if ?low then sqlStr else sqlStr @ '' LIMIT 1'', args)"
    using assms
    by (simp add: First_def Let_def split: sum.splits list.splits prod.splits)
  have c: "?low \<longleftrightarrow> (\<exists>pre post. ToLower uc sqlStr = pre @ ''limit'' @ post)"
    by (rule Contains_iff)
  have a: "list_all ascii_byte ''limit''"
    by (simp add: ascii_byte_def)
  have v: "?low" if "sqlStr = pre @ w @ post" and "map lower_byte w = ''limit''" for pre w post
    unfolding that(1) by (rule ascii_occurrence_lower [OF that(2) a]) simp
  have e: "?low \<longleftrightarrow> ?mix" if "list_all ascii_byte sqlStr"
    unfolding ToLower_ascii [OF that] by (rule Contains_lower_iff)
  show ?thesis
  proof (intro conjI impI)
    show "issued (First uc env q dest) =
           Some (if \<exists>pre post. ToLower uc sqlStr = pre @ ''limit'' @ post
                 then sqlStr else sqlStr @ '' LIMIT 1'', args)"
      using i unfolding c .
  next
    assume "?mix"
    then have "?low" by (elim exE conjE) (rule v)
    with i show "issued (First uc env q dest) = Some (sqlStr, args)"
      by (simp only: if_True)
  next
    assume "list_all ascii_byte sqlStr"
    then have "?low \<longleftrightarrow> ?mix" by (rule e)
    with i show "issued (First uc env q dest) =
              Some (if ?mix then sqlStr else sqlStr @ '' LIMIT 1'', args)"
      by (simp only:)
  qed
qed



theorem First_appends_limit_witness:
  "issued (First exampleTables emptyEnv byLimitCount userDest) =
     Some (''SELECT * FROM users ORDER BY limit_count'', [])
   \<and> issued (First exampleTables emptyEnv parent userDest) =
     Some (''SELECT * FROM users WHERE tenant = ? LIMIT 1'', [AInt 7])
   \<and> issued (First exampleTables emptyEnv byDottedName userDest) =
     Some (''SELECT * FROM users ORDER BY '' @ dottedName, [])"
proof -
  note byMix = First_appends_limit
    [OF bindModel_examples(1) byLimitCount_build, of exampleTables emptyEnv,
      THEN conjunct2, THEN conjunct1, THEN mp]
  note byAscii = First_appends_limit
    [OF bindModel_examples(2) parent_build, of exampleTables emptyEnv,
      THEN conjunct2, THEN conjunct2, THEN mp]
  note byLower = First_appends_limit
    [OF bindModel_examples(3) byDottedName_build, of exampleTables emptyEnv, THEN conjunct1]
  have m: "\<exists>pre w post. ''SELECT * FROM users ORDER BY limit_count'' = pre @ w @ post
            \<and> map lower_byte w = ''limit''"
  proof (intro exI conjI)
    show "''SELECT * FROM users ORDER BY limit_count''
            = ''SELECT * FROM users ORDER BY '' @ ''limit'' @ ''_count''"
      by simp
    show "map lower_byte ''limit'' = ''limit''"
      by code_simp
  qed
  have a: "list_all ascii_byte ''SELECT * FROM users WHERE tenant = ?''"
    by code_simp
  have "\<not> Contains (map lower_byte ''SELECT * FROM users WHERE tenant = ?'') ''limit''"
    by code_simp
  then have n: "\<not> (\<exists>pre w post. ''SELECT * FROM users WHERE tenant = ?'' = pre @ w @ post
            \<and> map lower_byte w = ''limit'')"
    unfolding Contains_lower_iff .
  have 1: "issued (First exampleTables emptyEnv byLimitCount userDest) =
     Some (''SELECT * FROM users ORDER BY limit_count'', [])"
    by (rule byMix [OF m])
  have 2: "issued (First exampleTables emptyEnv parent userDest) =
     Some (''SELECT * FROM users WHERE tenant = ? LIMIT 1'', [AInt 7])"
    using byAscii [OF a] n by (simp only: if_False append.simps)
  have 3: "issued (First exampleTables emptyEnv byDottedName userDest) =
     Some (''SELECT * FROM users ORDER BY '' @ dottedName, [])"
    using byLower limit_in_examples(3) [unfolded Contains_iff] by (simp only: if_True)
  from 1 2 3 show ?thesis by (intro conjI)
qed


section \<open>Markers and arguments\<close>

lemma Count_q_append [simp]: "Count_q (a @ b) = Count_q a + Count_q b"
  by (simp add: Count_q_def)

lemma Count_q_Nil [simp]: "Count_q [] = 0"
  by (simp add: Count_q_def)

lemma Count_q_Cons [simp]: "Count_q (c # cs) = (if c = CHR ''?'' then 1 else 0) + Count_q cs"
  by (simp add: Count_q_def)

lemma markersOf_simps [simp]:
  "markersOf [] = 0" "markersOf (x # xs) = Count_q x + markersOf xs"
  "markersOf (xs @ ys) = markersOf xs + markersOf ys"
  by (simp_all add: markersOf_def)

lemma Count_q_Join:
  "Count_q sep = 0 \<Longrightarrow> Count_q (strings_Join xs sep) = markersOf xs"
  by (induction xs sep rule: strings_Join.induct) simp_all

lemma Count_q_Sprint_int [simp]: "Count_q (Sprint_int i) = 0"
  using Sprint_int_no_marker [of i] by (simp add: Count_q_def)

lemma Count_q_Replace:
  "0 < Count_q c \<Longrightarrow> Count_q (Replace_first_q c new) + 1 = Count_q c + Count_q new"
  by (induction c) auto

lemma markersOf_replicate: "markersOf (replicate n ''?'') = n"
  by (induction n) simp_all

lemma Count_q_group: "Count_q (''('' @ strings_Join (replicate n ''?'') '', '' @ '')'') = n"
  by (simp add: Count_q_Join markersOf_replicate)

lemma expandArgs_count:
  assumes "expandArgs args c fa = (c', fa')" and "ASlice [] \<notin> set args"
    and "length args \<le> Count_q c"
  shows "Count_q c' + length args + length fa = Count_q c + length fa'"
  using assms
proof (induction args c fa rule: expandArgs.induct)
  case (2 vals args condStr finalArgs)
  let ?new = "''('' @ strings_Join (replicate (length vals) ''?'') '', '' @ '')''"
  from 2 have ne: "vals \<noteq> []" and pos: "0 < Count_q condStr" by auto
  have r: "Count_q (Replace_first_q condStr ?new) + 1 = Count_q condStr + length vals"
    using Count_q_Replace [OF pos, of ?new] by (simp only: Count_q_group)
  from 2 ne have e: "expandArgs args (Replace_first_q condStr ?new) (finalArgs @ vals) = (c', fa')"
    by simp
  from 2 r have le: "length args \<le> Count_q (Replace_first_q condStr ?new)"
    using ne by (cases vals) auto
  from 2 have no: "ASlice [] \<notin> set args" by simp
  from "2.IH"(2) [OF _ e no le] ne
  have "Count_q c' + length args + length (finalArgs @ vals)
          = Count_q (Replace_first_q condStr ?new) + length fa'"
    by simp
  with r show ?case by simp
qed simp_all

lemma expandArgs_all_empty:
  "set args \<subseteq> {ASlice []} \<Longrightarrow> args \<noteq> [] \<Longrightarrow> expandArgs args c fa = (''1=0'', fa)"
proof (induction args arbitrary: c)
  case Nil
  then show ?case by simp
next
  case (Cons a args)
  then have a: "a = ASlice []" by simp
  show ?case
  proof (cases "args = []")
    case True
    with a show ?thesis by simp
  next
    case False
    with Cons a show ?thesis by simp
  qed
qed

lemma countCommon_take:
  "\<exists>k \<le> length ss. countCommon qs ss c a = (c + k, a + markersOf (take k ss))"
proof (induction qs ss c a rule: countCommon.induct)
  case (1 qw qWheres sw subWheres common argsToDrop)
  show ?case
  proof (cases "sw = qw")
    case True
    with 1 obtain k where k: "k \<le> length subWheres"
      and e: "countCommon qWheres subWheres (common + 1) (argsToDrop + Count_q qw)
               = (common + 1 + k, argsToDrop + Count_q qw + markersOf (take k subWheres))"
      by blast
    from True e have "countCommon (qw # qWheres) (sw # subWheres) common argsToDrop
        = (common + Suc k, argsToDrop + markersOf (take (Suc k) (sw # subWheres)))"
      by simp
    with k show ?thesis
      by (intro exI [of _ "Suc k"]) simp
  next
    case False
    then show ?thesis by (intro exI [of _ 0]) simp
  qed
next
  case (2 subWheres common argsToDrop)
  then show ?case by (intro exI [of _ 0]) simp
next
  case (3 v va common argsToDrop)
  then show ?case by (intro exI [of _ 0]) simp
qed

lemma markersOf_take_drop: "markersOf (take k xs) + markersOf (drop k xs) = markersOf xs"
  by (metis append_take_drop_id markersOf_simps(3))

lemma stripCommon_count:
  assumes "markersOf (wheres sub) = length (whereArgs sub)"
    and "stripCommon q sub = (sw, sa)"
  shows "markersOf sw = length sa"
proof -
  obtain k where k: "k \<le> length (wheres sub)"
    and e: "countCommon (wheres q) (wheres sub) 0 0 = (k, markersOf (take k (wheres sub)))"
    using countCommon_take [of "wheres sub" "wheres q" 0 0] by auto
  have le: "markersOf (take k (wheres sub)) \<le> length (whereArgs sub)"
    using markersOf_take_drop [of k "wheres sub"] assms(1) by simp
  have "markersOf (drop k (wheres sub))
          = length (drop (markersOf (take k (wheres sub))) (whereArgs sub))"
    using markersOf_take_drop [of k "wheres sub"] assms(1) by simp
  with assms e le show ?thesis
    by (auto simp: stripCommon_def split: if_splits)
qed

lemma Count_q_groupText: "Count_q (groupText sw ors) = markersOf sw + markersOf ors"
  by (simp add: groupText_def Count_q_Join)

lemma balanced_fresh: "balanced (NewSqlAdapter fl)"
  by (simp add: balanced_def NewSqlAdapter_def)

lemma balanced_Where_text:
  assumes "balanced q" and "ASlice [] \<notin> set args" and "Count_q condStr = length args"
  shows "balanced (Where q (CondStr condStr) args)"
proof -
  obtain c' fa' where e: "expandArgs args condStr [] = (c', fa')"
    by (cases "expandArgs args condStr []") auto
  from expandArgs_count [OF e assms(2)] assms(3) have "Count_q c' = length fa'" by simp
  with assms(1) e show ?thesis
    by (simp add: balanced_def Where_def clone_def)
qed

lemma balanced_Where_empty:
  assumes "balanced q" and "args \<noteq> []" and "set args \<subseteq> {ASlice []}"
  shows "balanced (Where q (CondStr condStr) args)"
  using assms expandArgs_all_empty [OF assms(3,2), of condStr "[]"]
  by (simp add: balanced_def Where_def clone_def)

lemma balanced_Where_sub:
  assumes "balanced q" and "balanced sub"
  shows "balanced (Where q (CondSub sub) args)"
proof -
  obtain sw sa where e: "stripCommon q sub = (sw, sa)"
    by (cases "stripCommon q sub") auto
  from assms(2) have "markersOf (wheres sub) = length (whereArgs sub)"
    by (simp add: balanced_def)
  from stripCommon_count [OF this e] have "markersOf sw = length sa" .
  with assms e show ?thesis
    by (simp add: balanced_def Where_def clone_def Count_q_groupText)
qed

lemma Count_q_zero_iff: "Count_q s = 0 \<longleftrightarrow> CHR ''?'' \<notin> set s"
  by (simp add: Count_q_def count_list_0_iff)

lemma space_not_marker:
  "is_space a \<Longrightarrow> a \<noteq> CHR ''?''"
  "space2 a b \<Longrightarrow> a \<noteq> CHR ''?'' \<and> b \<noteq> CHR ''?''"
  "space3 a b c \<Longrightarrow> a \<noteq> CHR ''?'' \<and> b \<noteq> CHR ''?'' \<and> c \<noteq> CHR ''?''"
  by (auto simp: is_space_def in_range_def space2_def space3_def)

lemma marker_in_trimLeft: "CHR ''?'' \<in> set s \<Longrightarrow> CHR ''?'' \<in> set (trimLeft s)"
proof (induction s rule: trimLeft.induct)
  case (1 a b c cs)
  then show ?case
    using space_not_marker(1) [of a] space_not_marker(2) [of a b] space_not_marker(3) [of a b c]
    by (cases "is_space a"; cases "space2 a b"; cases "space3 a b c") auto
next
  case (2 a b)
  then show ?case
    using space_not_marker(1) [of a] space_not_marker(2) [of a b]
    by (cases "is_space a"; cases "space2 a b") auto
next
  case (3 a)
  then show ?case using space_not_marker(1) [of a] by auto
next
  case 4
  then show ?case by simp
qed

lemma marker_in_trimRightRev: "CHR ''?'' \<in> set s \<Longrightarrow> CHR ''?'' \<in> set (trimRightRev s)"
proof (induction s rule: trimRightRev.induct)
  case (1 c b a cs)
  then show ?case
    using space_not_marker(1) [of c] space_not_marker(2) [of b c] space_not_marker(3) [of a b c]
    by (cases "is_space c"; cases "space2 b c"; cases "space3 a b c") auto
next
  case (2 c b)
  then show ?case
    using space_not_marker(1) [of c] space_not_marker(2) [of b c]
    by (cases "is_space c"; cases "space2 b c") auto
next
  case (3 c)
  then show ?case using space_not_marker(1) [of c] by auto
next
  case 4
  then show ?case by simp
qed

lemma marker_in_TrimSpace: "CHR ''?'' \<in> set s \<Longrightarrow> CHR ''?'' \<in> set (TrimSpace s)"
  by (simp add: TrimSpace_def marker_in_trimLeft marker_in_trimRightRev)

lemma Split_covers:
  "c \<in> set s \<Longrightarrow> c \<noteq> sep \<Longrightarrow> \<exists>p \<in> set (Split s sep). c \<in> set p"
  by (induction s) (auto split: list.splits)

lemma validateParts_None:
  "validateParts parts = None \<Longrightarrow> p \<in> set parts \<Longrightarrow> ValidateIdentifier p = None"
  by (induction parts) (auto split: option.splits)

lemma ValidateIdentifier_no_marker: "ValidateIdentifier p = None \<Longrightarrow> Count_q p = 0"
  unfolding Count_q_zero_iff
  using MatchString_allows [of sqlIdentifierPattern p "CHR ''?''"] no_marker_in_patterns(2)
  by (auto simp: ValidateIdentifier_def split: if_splits)

lemma ValidateColumnName_no_marker: "ValidateColumnName p = None \<Longrightarrow> Count_q p = 0"
  unfolding Count_q_zero_iff
  using MatchString_allows [of columnNamePattern p "CHR ''?''"] no_marker_in_patterns(3)
  by (auto simp: ValidateColumnName_def split: if_splits)

lemma ValidateOrderBy_no_marker:
  assumes "ValidateOrderBy uc ord = None"
  shows "Count_q ord = 0"
proof (cases "ord = []")
  case True
  then show ?thesis by simp
next
  case False
  with assms have "MatchString orderByPattern (TrimSpace ord)"
    by (auto simp: ValidateOrderBy_def validateOrderByFormat_def split: option.splits if_splits)
  then have "CHR ''?'' \<notin> set (TrimSpace ord)"
    using MatchString_allows no_marker_in_patterns(1) by blast
  then have "CHR ''?'' \<notin> set ord"
    using marker_in_TrimSpace by blast
  then show ?thesis by (simp add: Count_q_zero_iff)
qed

lemma sanitizeSelectField_no_marker:
  assumes "sanitizeSelectField f = Inr x"
  shows "Count_q x = 0"
proof (cases "TrimSpace f = ''*''")
  case True
  with assms show ?thesis by (auto simp: sanitizeSelectField_def)
next
  case False
  with assms have x: "x = TrimSpace f"
    and v: "validateParts (Split x CHR ''.'') = None"
    by (auto simp: sanitizeSelectField_def validateTableColumnFormat_def Let_def
        split: if_splits option.splits)
  have "CHR ''?'' \<notin> set x"
  proof
    assume "CHR ''?'' \<in> set x"
    then obtain p where "p \<in> set (Split x CHR ''.'')" and "CHR ''?'' \<in> set p"
      using Split_covers [of "CHR ''?''" x "CHR ''.''"] by auto
    with v show False
      using validateParts_None ValidateIdentifier_no_marker Count_q_zero_iff by blast
  qed
  then show ?thesis by (simp add: Count_q_zero_iff)
qed

lemma sanitizeEach_no_marker: "sanitizeEach sel = Inr sanitized \<Longrightarrow> markersOf sanitized = 0"
proof (induction sel arbitrary: sanitized)
  case Nil
  then show ?case by simp
next
  case (Cons f fs)
  then show ?case
    by (auto simp: sanitizeSelectField_no_marker split: sum.splits)
qed

lemma SanitizeColumnNames_no_marker:
  "SanitizeColumnNames cols = Inr sanitized \<Longrightarrow> markersOf sanitized = 0"
proof (induction cols arbitrary: sanitized)
  case Nil
  then show ?case by simp
next
  case (Cons c cs)
  then show ?case
    by (auto simp: ValidateColumnName_no_marker split: sum.splits option.splits)
qed

lemma balanced_Order: "balanced q \<Longrightarrow> balanced (Order uc q ord)"
  by (auto simp: Order_def clone_def balanced_def ValidateOrderBy_no_marker split: option.splits)

lemma balanced_Select: "balanced q \<Longrightarrow> balanced (Select q sel)"
  by (auto simp: Select_def SanitizeSelectFields_def clone_def balanced_def Let_def
      sanitizeEach_no_marker split: sum.splits if_splits)

lemma balanced_GroupBy: "balanced q \<Longrightarrow> balanced (GroupBy q cols)"
  by (auto simp: GroupBy_def clone_def balanced_def Let_def SanitizeColumnNames_no_marker
      split: sum.splits)

lemma matched_balanced: "matched q \<Longrightarrow> balanced q"
proof (induction rule: matched.induct)
  case (fresh fl)
  show ?case by (rule balanced_fresh)
next
  case (useModel q m)
  then show ?case by (simp add: balanced_def UseModel_def clone_def)
next
  case (whereText q args condStr)
  then show ?case by (simp add: balanced_Where_text)
next
  case (whereEmpty q args condStr)
  then show ?case by (simp add: balanced_Where_empty)
next
  case (whereSub q sub args)
  then show ?case by (simp add: balanced_Where_sub)
next
  case (or q cond args)
  then show ?case by (simp add: balanced_def Or_def clone_def)
next
  case (join q joinClause args uc)
  then show ?case by (simp add: balanced_def Join_def clone_def split: option.splits)
next
  case (having q cols args uc)
  then show ?case
    by (simp add: balanced_def Having_def clone_def markersOf_def split: option.splits)
next
  case (limit q l)
  then show ?case by (simp add: balanced_def Limit_def clone_def)
next
  case (offset q off)
  then show ?case by (simp add: balanced_def Offset_def clone_def)
next
  case (order q uc ord)
  then show ?case by (simp add: balanced_Order)
next
  case (select q sel)
  then show ?case by (simp add: balanced_Select)
next
  case (groupBy q cols)
  then show ?case by (simp add: balanced_GroupBy)
qed

lemma Count_q_selectText:
  "balanced q \<Longrightarrow> Count_q (selectText count q) = length (joinArgs q)"
  by (auto simp: selectText_def balanced_def Count_q_Join)

lemma Count_q_whereText:
  "balanced q \<Longrightarrow> Count_q (whereText q) = length (whereArgsOut q)"
  by (auto simp: whereText_def whereArgsOut_def balanced_def Count_q_Join)

lemma Count_q_tailText:
  "balanced q \<Longrightarrow>
     Count_q (tailText count q) = length (if length (havings q) > 0 \<and> \<not> count then havingArgs q else [])"
  by (auto simp: tailText_def balanced_def Count_q_Join split: option.splits)

text \<open>
  C2, as the code has it. For a builder made by calls that pass one argument for each
  \<open>?\<close> of their text (\<open>matched\<close>), the generic text that \<open>build\<close> assembles has as many
  \<open>?\<close> as the argument list has elements; under the generic dialect that text is the
  statement, and under the numbered dialect the statement is that text with its \<open>?\<close>
  numbered in order.
\<close>

theorem build_markers_match_args:
  assumes "matched q"
  shows "Count_q (fst (build count (q\<lparr>flavor := FlavorMySQL\<rparr>))) = length (snd (build count q))
    \<and> (flavor q = FlavorMySQL \<longrightarrow> Count_q (fst (build count q)) = length (snd (build count q)))
    \<and> (flavor q = FlavorPostgres \<longrightarrow>
          fst (build count q) = numberMarkers (fst (build count (q\<lparr>flavor := FlavorMySQL\<rparr>))) 0)"
proof -
  from assms have b: "balanced q" by (rule matched_balanced)
  have g: "fst (build count (q\<lparr>flavor := FlavorMySQL\<rparr>))
             = selectText count q @ whereText q @ tailText count q"
    by (simp add: build_def selectText_def whereText_def tailText_def)
  have a: "length (snd (build count q))
             = length (joinArgs q) + length (whereArgsOut q)
               + length (if length (havings q) > 0 \<and> \<not> count then havingArgs q else [])"
    by (simp add: build_def Let_def)
  have c: "Count_q (fst (build count (q\<lparr>flavor := FlavorMySQL\<rparr>))) = length (snd (build count q))"
    unfolding g a using b
    by (simp only: Count_q_append Count_q_selectText Count_q_whereText Count_q_tailText)
  have m: "flavor q = FlavorMySQL \<Longrightarrow> q\<lparr>flavor := FlavorMySQL\<rparr> = q"
    by simp
  have p: "flavor q = FlavorPostgres \<Longrightarrow>
      fst (build count q) = numberMarkers (fst (build count (q\<lparr>flavor := FlavorMySQL\<rparr>))) 0"
    by (simp add: build_def selectText_def whereText_def tailText_def)
  from c m p show ?thesis by (metis)
qed

lemma chainFiltered_state:
  "chainFiltered =
     \<lparr>flavor = FlavorPostgres, table = ''users'', fields' = [''*''], groups = [], havings = [],
      havingArgs = [], joins = [''JOIN p ON p.k = ?''], joinArgs = [AStr ''main''],
      wheres = [''id IN (?, ?, ?) AND status = ?''],
      whereArgs = [AInt 1, AInt 2, AInt 3, AStr ''active''],
      orWheres = [], orArgs = [], orderBy = [], limit = None, offset = None,
      model = Some users\<rparr>"
proof -
  have "ValidateJoinClause exampleTables ''JOIN p ON p.k = ?'' = None" by code_simp
  then show ?thesis
    by (simp add: chainFiltered_def Join_def Where_def UseModel_def NewSqlAdapter_def clone_def
        users_def)
qed

lemma chainSearch_state:
  "chainSearch =
     chainFiltered\<lparr>orWheres := [''name LIKE ?'', ''email LIKE ?''],
       orArgs := [AStr ''%a%'', AStr ''%a%'']\<rparr>"
  by (simp add: chainSearch_def Or_def clone_def chainFiltered_state)

lemma chainMerged_state:
  "Where chainFiltered (CondSub chainSearch) []
     = chainFiltered
        \<lparr>wheres := [''id IN (?, ?, ?) AND status = ?'', ''((name LIKE ? OR email LIKE ?))''],
         whereArgs := [AInt 1, AInt 2, AInt 3, AStr ''active'', AStr ''%a%'', AStr ''%a%'']\<rparr>"
  by (simp add: Where_def clone_def stripCommon_def groupText_def chainSearch_state
      chainFiltered_state Count_q_def)

lemma chainFull_state:
  "chainFull =
     chainFiltered
        \<lparr>fields' := [''users.id'', ''name''], groups := [''id''],
         wheres := [''id IN (?, ?, ?) AND status = ?'', ''((name LIKE ? OR email LIKE ?))''],
         whereArgs := [AInt 1, AInt 2, AInt 3, AStr ''active'', AStr ''%a%'', AStr ''%a%''],
         havings := [''COUNT(id) > ?''], havingArgs := [AInt 1],
         orderBy := ''name ASC'', limit := Some 10\<rparr>"
proof -
  have v: "SanitizeSelectFields [''users.id'', ''name''] = Inr [''users.id'', ''name'']"
    "SanitizeColumnNames [''id''] = Inr [''id'']"
    "ValidateHavingClause exampleTables [''COUNT(id) > ?''] = None"
    "ValidateOrderBy exampleTables ''name ASC'' = None"
    by code_simp+
  show ?thesis
    unfolding chainFull_def chainMerged_state
    by (simp add: Limit_def Order_def Having_def GroupBy_def Select_def v clone_def
        chainFiltered_state
        del: ValidateHavingClause.simps SanitizeColumnNames.simps)
qed

lemma havingArgs_Select [simp]: "havingArgs (Select q sel) = havingArgs q"
  by (simp add: Select_def clone_def split: sum.splits)

lemma havingArgs_GroupBy [simp]: "havingArgs (GroupBy q cols) = havingArgs q"
  by (simp add: GroupBy_def clone_def split: sum.splits)

lemma havingArgs_Where [simp]: "havingArgs (Where q c args) = havingArgs q"
  by (simp add: Where_def clone_def split: cond.splits prod.splits)

lemma chainFull_matched: "matched chainFull"
proof -
  have f: "matched chainFiltered"
    unfolding chainFiltered_def
    by (intro matched.whereText matched.join matched.useModel matched.fresh)
       (simp_all add: users_def)
  then have s: "matched chainSearch"
    unfolding chainSearch_def by (intro matched.or) simp_all
  have h: "havingArgs (GroupBy (Select (Where chainFiltered (CondSub chainSearch) [])
             [''users.id'', ''name'']) [''id'']) = []"
    by (simp add: chainFiltered_state)
  show ?thesis
    unfolding chainFull_def
    by (intro matched.limit matched.order matched.having matched.groupBy matched.select
        matched.whereSub f s h) simp
qed

lemma chainFull_args:
  "snd (build False chainFull)
     = [AStr ''main'', AInt 1, AInt 2, AInt 3, AStr ''active'', AStr ''%a%'', AStr ''%a%'', AInt 1]"
  by (simp add: chainFull_state chainFiltered_state build_def whereArgsOut_def Let_def)

lemma chainFull_text:
  "fst (build False chainFull) =
     ''SELECT users.id, name FROM users JOIN p ON p.k = $1 WHERE id IN ($2, $3, $4) AND status = $5 AND ((name LIKE $6 OR email LIKE $7)) GROUP BY id HAVING COUNT(id) > $8 ORDER BY name ASC LIMIT 10''"
  by (simp add: chainFull_state chainFiltered_state build_def selectText_def whereText_def
      tailText_def Sprint_int_small)

theorem build_markers_match_args_witness:
  "matched chainFull
   \<and> length (snd (build False chainFull)) = 8
   \<and> Count_q (fst (build False (chainFull\<lparr>flavor := FlavorMySQL\<rparr>))) = 8
   \<and> fst (build False chainFull)
       = numberMarkers (fst (build False (chainFull\<lparr>flavor := FlavorMySQL\<rparr>))) 0"
proof -
  have p: "flavor chainFull = FlavorPostgres"
    by (simp add: chainFull_state chainFiltered_state)
  from build_markers_match_args [OF chainFull_matched, of False] chainFull_matched p
  show ?thesis
    by (simp add: chainFull_args)
qed

lemma unmatchedWhere_build:
  "build False unmatchedWhere = (''SELECT * FROM users WHERE status = ?'', [])"
  by (simp add: unmatchedWhere_def build_def selectText_def whereText_def whereArgsOut_def
      tailText_def Where_def UseModel_def NewSqlAdapter_def clone_def users_def)

lemma mixedEmpty_build:
  "build False mixedEmpty = (''SELECT * FROM users WHERE 1=0'', [AInt 18])"
  by (simp add: mixedEmpty_def build_def selectText_def whereText_def whereArgsOut_def
      tailText_def Where_def UseModel_def NewSqlAdapter_def clone_def users_def)

lemma havingTwice_build:
  "build False havingTwice = (''SELECT * FROM users HAVING SUM(x) > ?'', [AInt 1, AInt 2])"
proof -
  have v: "ValidateHavingClause exampleTables [''COUNT(id) > ?''] = None"
    "ValidateHavingClause exampleTables [''SUM(x) > ?''] = None"
    by code_simp+
  show ?thesis
    by (simp add: havingTwice_def v Having_def build_def selectText_def whereText_def
        whereArgsOut_def tailText_def UseModel_def NewSqlAdapter_def clone_def users_def
        del: ValidateHavingClause.simps)
qed

text \<open>
  C2, as stated, fails, in three ways. No method compares the number of its arguments
  with the number of \<open>?\<close> in its text: after \<open>Where("status = ?")\<close> without an argument
  the statement has one marker and the argument list is empty. A \<open>Where\<close> with two
  markers, a scalar and an empty sequence assembles the fragment \<open>1=0\<close> and keeps the
  scalar: no marker and one argument. A second \<open>Having\<close> with one marker and one argument
  replaces the clause of the first and keeps its argument: one marker and two arguments.
\<close>

theorem build_markers_exceed_args:
  "build False unmatchedWhere = (''SELECT * FROM users WHERE status = ?'', [])
   \<and> Count_q (fst (build False unmatchedWhere)) = 1
   \<and> length (snd (build False unmatchedWhere)) = 0
   \<and> build False mixedEmpty = (''SELECT * FROM users WHERE 1=0'', [AInt 18])
   \<and> Count_q (fst (build False mixedEmpty)) = 0
   \<and> length (snd (build False mixedEmpty)) = 1
   \<and> build False havingTwice = (''SELECT * FROM users HAVING SUM(x) > ?'', [AInt 1, AInt 2])
   \<and> Count_q (fst (build False havingTwice)) = 1
   \<and> length (snd (build False havingTwice)) = 2"
  by (simp add: unmatchedWhere_build mixedEmpty_build havingTwice_build)

text \<open>The validated \<open>Order\<close> drops the order of the scenario: \<open>created_at\<close> contains
  \<open>CREATE\<close>.\<close>

lemma Order_created_at_dropped:
  "ValidateOrderBy uc ''created_at DESC'' = Some ErrSuspiciousPattern
   \<and> Order uc q ''created_at DESC'' = q"
proof -
  have m: "''CREATE'' \<in> set commonSuspiciousPatterns"
    by (simp add: commonSuspiciousPatterns_def)
  have l: "map lower_byte ''create'' = map lower_byte ''CREATE''"
    by code_simp
  have c1: "map upper_byte ''CREATE'' = ''CREATE''"
    by (rule common_upper [OF m, THEN conjunct1])
  have c2: "list_all ascii_byte ''CREATE''"
    by (rule common_upper [OF m, THEN conjunct2])
  have "Contains (ToUpper uc ([] @ ''create'' @ ''d_at DESC'')) ''CREATE''"
    by (rule ascii_occurrence_upper [OF l c2 _ c1]) simp
  then have "Contains (ToUpper uc ''created_at DESC'') ''CREATE''"
    by simp
  then have "scanPatterns (ToUpper uc ''created_at DESC'') commonSuspiciousPatterns
               = Some ErrSuspiciousPattern"
    using m by (auto simp: scanPatterns_iff)
  then have "ValidateOrderBy uc ''created_at DESC'' = Some ErrSuspiciousPattern"
    by (simp add: ValidateOrderBy_def validateLength_def validateSuspiciousPatterns_def
        maxOrderByLen_def)
  then show ?thesis by (simp add: Order_def)
qed

end
